theory Spec2Isabelle
  imports Complex_Main "HOL-Library.Log_Nat"
begin

text \<open>
  A model of the audio-feature pipeline: \<^verbatim>\<open>detailed_stats\<close> and
  \<^verbatim>\<open>extract_audio_features\<close> of audio\_features.py, which turn the matrices librosa
  computes into a nested dictionary, and \<^verbatim>\<open>flatten_audio_features\<close>,
  \<^verbatim>\<open>find_json_path\<close> and \<^verbatim>\<open>main\<close> of merge\_data.py, which flatten that dictionary
  into named columns and join them to the catalog. Exceptions are values of a sum type,
  dictionaries are association lists in insertion order, and the file system is a
  function from paths.
\<close>

section \<open>Values: JSON documents and Python dictionaries\<close>

text \<open>
  A float as the flattener and the extractor see it: a finite value, idealised as a
  real number, or NaN. Rounding and the infinities are not represented.
\<close>

datatype pyfloat = NaN | Fin real

text \<open>
  What \<^verbatim>\<open>json.load\<close> returns. A Python dictionary keeps its keys in insertion
  order, so an object is an association list.
\<close>

datatype json =
    JNull
  | JBool bool
  | JNum pyfloat
  | JStr string
  | JList "json list"
  | JDict "(string \<times> json) list"

type_synonym pydict = "(string \<times> json) list"

text \<open>The exceptions the modelled code can raise.\<close>

datatype error = AttributeError | ValueError | IndexError | JSONDecodeError

text \<open>
  \<^verbatim>\<open>d[k] = v\<close>: an existing key keeps its position and takes the new value, a new key
  goes to the end.
\<close>

fun dict_set :: "pydict \<Rightarrow> string \<Rightarrow> json \<Rightarrow> pydict" where
  "dict_set [] k v = [(k, v)]"
| "dict_set ((k', v') # d) k v =
     (if k' = k then (k', v) # d else (k', v') # dict_set d k v)"

text \<open>\<^verbatim>\<open>d.get(k, default)\<close>\<close>

definition dict_get :: "pydict \<Rightarrow> string \<Rightarrow> json \<Rightarrow> json" where
  "dict_get d k dflt = (case map_of d k of None \<Rightarrow> dflt | Some v \<Rightarrow> v)"

text \<open>\<^verbatim>\<open>str(i)\<close> for a non-negative integer, as an f-string formats an index.\<close>

definition digit :: "nat \<Rightarrow> char" where
  "digit d = ''0123456789'' ! d"

function str_nat :: "nat \<Rightarrow> string" where
  "str_nat n = (if n < 10 then [digit n] else str_nat (n div 10) @ [digit (n mod 10)])"
  by pat_completeness auto
termination
  by (relation "measure id") auto

declare str_nat.simps [simp del]

section \<open>merge\_data.py: flatten\_audio\_features\<close>

definition stat_keys :: "string list" where
  "stat_keys = [''mean'', ''variance'', ''median'', ''skewness'', ''kurtosis'', ''min'', ''max'']"

text \<open>\<^verbatim>\<open>for k, v in obj.items(): flat[f"{prefix}_{k}"] = v\<close>\<close>

definition item_columns :: "pydict \<Rightarrow> string \<Rightarrow> pydict \<Rightarrow> pydict" where
  "item_columns flat prefix items =
     foldl (\<lambda>fl (k, v). dict_set fl (prefix @ ''_'' @ k) v) flat items"

text \<open>\<^verbatim>\<open>for k in ["mean", ..., "max"]: flat[f"{prefix}_{k}"] = None\<close>\<close>

definition none_columns :: "pydict \<Rightarrow> string \<Rightarrow> pydict" where
  "none_columns flat prefix =
     foldl (\<lambda>fl k. dict_set fl (prefix @ ''_'' @ k) JNull) flat stat_keys"

definition single_names :: "string list" where
  "single_names =
     [''chroma_stft_stats'', ''spectral_centroid_stats'', ''zero_crossing_rate_stats'',
      ''rms_stats'']"

text \<open>
  The body of the loop over the four single statistics. A missing field takes the
  default \<^verbatim>\<open>{}\<close>, which is a dictionary, so it goes through the first branch.
\<close>

definition single_stats :: "pydict \<Rightarrow> pydict \<Rightarrow> string \<Rightarrow> pydict" where
  "single_stats audio_data flat stats_name =
     (case dict_get audio_data stats_name (JDict []) of
        JDict stats_dict \<Rightarrow> item_columns flat stats_name stats_dict
      | _ \<Rightarrow> none_columns flat stats_name)"

text \<open>
  \<^verbatim>\<open>for i, obj in enumerate(array): for k, v in obj.items(): ...\<close>; \<^verbatim>\<open>obj.items()\<close>
  raises AttributeError when the entry is not a dictionary.
\<close>

fun band_items :: "string \<Rightarrow> pydict \<Rightarrow> nat \<Rightarrow> json list \<Rightarrow> error + pydict" where
  "band_items name flat i [] = Inr flat"
| "band_items name flat i (obj # rest) =
     (case obj of
        JDict od \<Rightarrow> band_items name (item_columns flat (name @ ''_'' @ str_nat i) od) (Suc i) rest
      | _ \<Rightarrow> Inl AttributeError)"

text \<open>\<^verbatim>\<open>for i in range(n): for k in [...]: flat[f"{name}_{i}_{k}"] = None\<close>\<close>

definition band_nones :: "string \<Rightarrow> pydict \<Rightarrow> nat \<Rightarrow> pydict" where
  "band_nones name flat n =
     foldl (\<lambda>fl i. none_columns fl (name @ ''_'' @ str_nat i)) flat [0..<n]"

definition band_stats :: "pydict \<Rightarrow> pydict \<Rightarrow> string \<Rightarrow> nat \<Rightarrow> error + pydict" where
  "band_stats audio_data flat name n =
     (case dict_get audio_data name (JList []) of
        JList (obj # rest) \<Rightarrow> band_items name flat 0 (obj # rest)
      | _ \<Rightarrow> Inr (band_nones name flat n))"

definition top_names :: "string list" where
  "top_names = [''tempo'', ''danceability'', ''key'', ''duration'']"

definition bind_err :: "error + 'a \<Rightarrow> ('a \<Rightarrow> error + 'b) \<Rightarrow> error + 'b" where
  "bind_err r f = (case r of Inl e \<Rightarrow> Inl e | Inr x \<Rightarrow> f x)"

text \<open>
  The flattener. \<^verbatim>\<open>audio_data.get\<close> raises AttributeError when the document is not an
  object.
\<close>

definition flatten_audio_features :: "json \<Rightarrow> error + pydict" where
  "flatten_audio_features audio_data =
     (case audio_data of
        JDict d \<Rightarrow>
          (let flat = [];
               flat = dict_set flat ''tempo'' (dict_get d ''tempo'' JNull);
               flat = dict_set flat ''danceability'' (dict_get d ''danceability'' JNull);
               flat = dict_set flat ''key'' (dict_get d ''key'' JNull);
               flat = dict_set flat ''duration'' (dict_get d ''duration'' JNull);
               flat = foldl (single_stats d) flat single_names
           in bind_err (band_stats d flat ''mfcc_stats'' 20) (\<lambda>flat.
              bind_err (band_stats d flat ''spectral_contrast_stats'' 7) (\<lambda>flat.
              band_stats d flat ''tonnetz_stats'' 6)))
      | _ \<Rightarrow> Inl AttributeError)"

text \<open>
  The column names, as the three f-string templates of the flattener generate them from
  a field, an index and a statistic.
\<close>

datatype column = Top string | Single string string | Band string nat string

fun column_name :: "column \<Rightarrow> string" where
  "column_name (Top f) = f"
| "column_name (Single f k) = f @ ''_'' @ k"
| "column_name (Band f i k) = f @ ''_'' @ str_nat i @ ''_'' @ k"

definition band_names :: "(string \<times> nat) list" where
  "band_names = [(''mfcc_stats'', 20), (''spectral_contrast_stats'', 7), (''tonnetz_stats'', 6)]"

definition band_columns :: "string \<Rightarrow> nat \<Rightarrow> column list" where
  "band_columns f n = concat (map (\<lambda>i. map (Band f i) stat_keys) [0..<n])"

definition single_columns :: "column list" where
  "single_columns = concat (map (\<lambda>f. map (Single f) stat_keys) single_names)"

text \<open>The fixed schema: every (field, index, statistic) triple, in the order of the code.\<close>

definition schema :: "column list" where
  "schema = map Top top_names @ single_columns
     @ concat (map (\<lambda>(f, n). band_columns f n) band_names)"

definition flat_width :: "json \<Rightarrow> error + nat" where
  "flat_width doc = map_sum id length (flatten_audio_features doc)"

section \<open>audio\_features.py\<close>

text \<open>
  A numeric array, of one or two dimensions, with its elements idealised as reals;
  \<^verbatim>\<open>np.array(a).flatten()\<close> lists them in row-major order. The arithmetic of the
  reductions below is exact; the mean as it is rounded in double precision follows them.
\<close>

datatype ndarray = Arr1 "real list" | Arr2 "real list list"

fun np_flatten :: "ndarray \<Rightarrow> real list" where
  "np_flatten (Arr1 xs) = xs"
| "np_flatten (Arr2 rows) = concat rows"

text \<open>
  numpy's reductions. On an array with no element \<^verbatim>\<open>np.mean\<close>, \<^verbatim>\<open>np.var\<close> and
  \<^verbatim>\<open>np.median\<close> warn and return NaN, and \<^verbatim>\<open>np.min\<close> and \<^verbatim>\<open>np.max\<close> raise ValueError.
\<close>

definition np_mean :: "real list \<Rightarrow> pyfloat" where
  "np_mean xs = (if xs = [] then NaN else Fin (sum_list xs / real (length xs)))"

text \<open>
  Double precision. \<open>binade x\<close> is the exponent \<open>e\<close> with \<open>2^e \<le> x < 2^(e+1)\<close> of a
  positive \<open>x\<close>, and \<open>round_double\<close> rounds to the nearest number with a significand
  of 53 bits, a tie going to the even significand, as every operation on doubles rounds
  its exact result. Overflow and subnormal numbers are not represented.
\<close>

definition binade :: "real \<Rightarrow> int" where
  "binade x = (if 1 \<le> x then bitlen \<lfloor>x\<rfloor> - 1 else - bitlen (\<lceil>1 / x\<rceil> - 1))"

definition round_half_even :: "real \<Rightarrow> int" where
  "round_half_even x =
     (let f = \<lfloor>x\<rfloor>; r = x - of_int f
      in if r < 1 / 2 then f else if 1 / 2 < r then f + 1 else if even f then f else f + 1)"

definition round_double :: "real \<Rightarrow> real" where
  "round_double x =
     (if x = 0 then 0
      else let q = 2 powi (binade \<bar>x\<bar> - 52)
           in sgn x * of_int (round_half_even (\<bar>x\<bar> / q)) * q)"

text \<open>
  \<^verbatim>\<open>float(np.mean(a))\<close> on an array of doubles: the sum, each addition rounded, divided
  by the number of elements, the division rounded. numpy adds fewer than 8 elements from
  left to right, starting from 0; it adds longer arrays in blocks, in an order that is
  not represented, so for them the model gives no value.
\<close>

definition np_mean_double :: "real list \<Rightarrow> pyfloat option" where
  "np_mean_double xs =
     (if 8 \<le> length xs then None
      else if xs = [] then Some NaN
      else Some (Fin (round_double
             (foldl (\<lambda>res x. round_double (res + x)) 0 xs / real (length xs)))))"

definition moment :: "nat \<Rightarrow> real list \<Rightarrow> real" where
  "moment k xs =
     (let m = sum_list xs / real (length xs)
      in sum_list (map (\<lambda>x. (x - m) ^ k) xs) / real (length xs))"

definition np_var :: "real list \<Rightarrow> pyfloat" where
  "np_var xs = (if xs = [] then NaN else Fin (moment 2 xs))"

definition np_median :: "real list \<Rightarrow> pyfloat" where
  "np_median xs =
     (if xs = [] then NaN
      else let s = sort xs; n = length xs
           in if odd n then Fin (s ! (n div 2))
              else Fin ((s ! (n div 2 - 1) + s ! (n div 2)) / 2))"

text \<open>
  \<^verbatim>\<open>scipy.stats.skew\<close> and \<^verbatim>\<open>scipy.stats.kurtosis\<close> with their defaults: the biased
  estimators, Fisher's (excess) kurtosis; NaN where the variance is zero, as recent
  versions return (their test for a zero variance has a tolerance, which is not
  represented).
\<close>

definition scipy_skew :: "real list \<Rightarrow> pyfloat" where
  "scipy_skew xs =
     (if xs = [] \<or> moment 2 xs = 0 then NaN
      else Fin (moment 3 xs / (moment 2 xs powr (3 / 2))))"

definition scipy_kurtosis :: "real list \<Rightarrow> pyfloat" where
  "scipy_kurtosis xs =
     (if xs = [] \<or> moment 2 xs = 0 then NaN
      else Fin (moment 4 xs / (moment 2 xs) ^ 2 - 3))"

definition np_min :: "real list \<Rightarrow> error + pyfloat" where
  "np_min xs = (case xs of [] \<Rightarrow> Inl ValueError | x # rest \<Rightarrow> Inr (Fin (fold min rest x)))"

definition np_max :: "real list \<Rightarrow> error + pyfloat" where
  "np_max xs = (case xs of [] \<Rightarrow> Inl ValueError | x # rest \<Rightarrow> Inr (Fin (fold max rest x)))"

record stat_summary =
  stat_mean :: pyfloat
  stat_variance :: pyfloat
  stat_median :: pyfloat
  stat_skewness :: pyfloat
  stat_kurtosis :: pyfloat
  stat_min :: pyfloat
  stat_max :: pyfloat

text \<open>
  The entries of the returned dictionary are evaluated in the order written; the first
  five never raise, so the first exception is that of \<^verbatim>\<open>np.min\<close>.
\<close>

definition detailed_stats :: "ndarray \<Rightarrow> error + stat_summary" where
  "detailed_stats feature_array =
     (let xs = np_flatten feature_array
      in bind_err (np_min xs) (\<lambda>mn.
         bind_err (np_max xs) (\<lambda>mx.
         Inr \<lparr>stat_mean = np_mean xs, stat_variance = np_var xs, stat_median = np_median xs,
              stat_skewness = scipy_skew xs, stat_kurtosis = scipy_kurtosis xs,
              stat_min = mn, stat_max = mx\<rparr>)))"

text \<open>The dictionary \<^verbatim>\<open>detailed_stats\<close> returns, with its keys in the order written.\<close>

definition stat_items :: "stat_summary \<Rightarrow> pydict" where
  "stat_items s =
     [(''mean'', JNum (stat_mean s)), (''variance'', JNum (stat_variance s)),
      (''median'', JNum (stat_median s)), (''skewness'', JNum (stat_skewness s)),
      (''kurtosis'', JNum (stat_kurtosis s)), (''min'', JNum (stat_min s)),
      (''max'', JNum (stat_max s))]"

record feature_bundle =
  tempo :: pyfloat
  danceability :: pyfloat
  key :: string
  duration :: pyfloat
  chroma_stft_stats :: stat_summary
  spectral_centroid_stats :: stat_summary
  zero_crossing_rate_stats :: stat_summary
  rms_stats :: stat_summary
  mfcc_stats :: "stat_summary list"
  spectral_contrast_stats :: "stat_summary list"
  tonnetz_stats :: "stat_summary list"

text \<open>
  The \<^verbatim>\<open>features\<close> dictionary of \<^verbatim>\<open>extract_audio_features\<close>, which \<^verbatim>\<open>json.dump\<close>
  writes and \<^verbatim>\<open>json.load\<close> reads back with the same keys in the same order.
\<close>

definition features_dict :: "feature_bundle \<Rightarrow> pydict" where
  "features_dict b =
     [(''tempo'', JNum (tempo b)),
      (''danceability'', JNum (danceability b)),
      (''key'', JStr (key b)),
      (''duration'', JNum (duration b)),
      (''chroma_stft_stats'', JDict (stat_items (chroma_stft_stats b))),
      (''spectral_centroid_stats'', JDict (stat_items (spectral_centroid_stats b))),
      (''zero_crossing_rate_stats'', JDict (stat_items (zero_crossing_rate_stats b))),
      (''rms_stats'', JDict (stat_items (rms_stats b))),
      (''mfcc_stats'', JList (map (\<lambda>s. JDict (stat_items s)) (mfcc_stats b))),
      (''spectral_contrast_stats'',
         JList (map (\<lambda>s. JDict (stat_items s)) (spectral_contrast_stats b))),
      (''tonnetz_stats'', JList (map (\<lambda>s. JDict (stat_items s)) (tonnetz_stats b)))]"

definition key_labels :: "string list" where
  "key_labels = [''C'', ''C#'', ''D'', ''D#'', ''E'', ''F'', ''F#'', ''G'', ''G#'', ''A'', ''A#'', ''B'']"

text \<open>
  A well-formed bundle: 20 cepstral bands, 7 contrast bands, 6 tonnetz bands and a key
  among the twelve labels.
\<close>

definition wf_bundle :: "feature_bundle \<Rightarrow> bool" where
  "wf_bundle b \<longleftrightarrow>
     length (mfcc_stats b) = 20 \<and> length (spectral_contrast_stats b) = 7 \<and>
     length (tonnetz_stats b) = 6 \<and> key b \<in> set key_labels"

text \<open>
  What librosa hands to \<^verbatim>\<open>extract_audio_features\<close>: the tempo and the beat frames of
  the beat tracker, the feature matrices (one row per band, one column per frame) and the
  duration.
\<close>

record librosa_features =
  lr_tempo :: real
  lr_beat_frames :: "nat list"
  lr_chroma :: "real list list"
  lr_spectral_centroid :: "real list list"
  lr_zero_crossing_rate :: "real list list"
  lr_mfcc :: "real list list"
  lr_spectral_contrast :: "real list list"
  lr_tonnetz :: "real list list"
  lr_rms :: "real list list"
  lr_chroma_cens :: "real list list"
  lr_duration :: real

text \<open>\<^verbatim>\<open>np.argmax\<close>: the first index of the maximum, a NaN counting as the maximum.\<close>

fun beats :: "pyfloat \<Rightarrow> pyfloat \<Rightarrow> bool" where
  "beats x NaN = False"
| "beats NaN (Fin b) = True"
| "beats (Fin x) (Fin b) = (b < x)"

fun argmax_from :: "nat \<Rightarrow> pyfloat \<Rightarrow> nat \<Rightarrow> pyfloat list \<Rightarrow> nat" where
  "argmax_from best_i best i [] = best_i"
| "argmax_from best_i best i (x # xs) =
     (if beats x best then argmax_from i x (Suc i) xs else argmax_from best_i best (Suc i) xs)"

definition np_argmax :: "pyfloat list \<Rightarrow> error + nat" where
  "np_argmax xs = (case xs of [] \<Rightarrow> Inl ValueError | x # rest \<Rightarrow> Inr (argmax_from 0 x 1 rest))"

text \<open>\<^verbatim>\<open>xs[i]\<close> on a list, for an index that is not negative.\<close>

definition list_index :: "'a list \<Rightarrow> nat \<Rightarrow> error + 'a" where
  "list_index xs i = (if i < length xs then Inr (xs ! i) else Inl IndexError)"

text \<open>\<^verbatim>\<open>rms[0, beat_frames]\<close>: row 0 of the matrix, read at each of the beat frames.\<close>

definition at_beat_frames :: "real list list \<Rightarrow> nat list \<Rightarrow> error + real list" where
  "at_beat_frames rms beat_frames =
     (case rms of
        [] \<Rightarrow> Inl IndexError
      | row0 # _ \<Rightarrow>
          if list_all (\<lambda>i. i < length row0) beat_frames
          then Inr (map (\<lambda>i. row0 ! i) beat_frames) else Inl IndexError)"

text \<open>\<^verbatim>\<open>np.clip(x, lo, hi)\<close>; a NaN stays a NaN.\<close>

fun np_clip :: "pyfloat \<Rightarrow> real \<Rightarrow> real \<Rightarrow> pyfloat" where
  "np_clip NaN lo hi = NaN"
| "np_clip (Fin x) lo hi = Fin (min (max x lo) hi)"

text \<open>\<^verbatim>\<open>(tempo / 200) * beat_strength * 10\<close>\<close>

fun danceability_raw :: "real \<Rightarrow> pyfloat \<Rightarrow> pyfloat" where
  "danceability_raw tmp NaN = NaN"
| "danceability_raw tmp (Fin beat_strength) = Fin ((tmp / 200) * beat_strength * 10)"

fun map_err :: "('a \<Rightarrow> error + 'b) \<Rightarrow> 'a list \<Rightarrow> error + 'b list" where
  "map_err f [] = Inr []"
| "map_err f (x # xs) =
     bind_err (f x) (\<lambda>y. bind_err (map_err f xs) (\<lambda>ys. Inr (y # ys)))"

definition extract_audio_features :: "librosa_features \<Rightarrow> error + feature_bundle" where
  "extract_audio_features lr =
     bind_err (np_argmax (map np_mean (lr_chroma_cens lr))) (\<lambda>key_index.
     bind_err (list_index key_labels key_index) (\<lambda>key.
     bind_err (at_beat_frames (lr_rms lr) (lr_beat_frames lr)) (\<lambda>beat_rms.
     let beat_strength = np_mean beat_rms;
         danceability = np_clip (danceability_raw (lr_tempo lr) beat_strength) 0 1
     in
     bind_err (detailed_stats (Arr2 (lr_chroma lr))) (\<lambda>chroma.
     bind_err (detailed_stats (Arr2 (lr_spectral_centroid lr))) (\<lambda>centroid.
     bind_err (detailed_stats (Arr2 (lr_zero_crossing_rate lr))) (\<lambda>zcr.
     bind_err (detailed_stats (Arr2 (lr_rms lr))) (\<lambda>rms.
     bind_err (map_err (\<lambda>band. detailed_stats (Arr1 band)) (lr_mfcc lr)) (\<lambda>mfcc.
     bind_err (map_err (\<lambda>band. detailed_stats (Arr1 band)) (lr_spectral_contrast lr)) (\<lambda>contrast.
     bind_err (map_err (\<lambda>band. detailed_stats (Arr1 band)) (lr_tonnetz lr)) (\<lambda>tonnetz.
     Inr \<lparr>tempo = Fin (lr_tempo lr), danceability = danceability, key = key,
          duration = Fin (lr_duration lr),
          chroma_stft_stats = chroma, spectral_centroid_stats = centroid,
          zero_crossing_rate_stats = zcr, rms_stats = rms,
          mfcc_stats = mfcc, spectral_contrast_stats = contrast,
          tonnetz_stats = tonnetz\<rparr>))))))))))"

section \<open>merge\_data.py: find\_json\_path and main\<close>

record catalog_row =
  year :: string
  to_country :: string
  performer :: string
  song :: string

text \<open>
  The built-in conversions of \<^verbatim>\<open>find_json_path\<close>, \<^verbatim>\<open>str(int(s))\<close>, are a parameter
  of the model, \<open>conv\<close>: what they return for each string, or the exception they raise.
\<close>

type_synonym conversion = "string \<Rightarrow> error + string"

text \<open>\<^verbatim>\<open>s.replace(a, b)\<close> for single characters, and the chain of nine of them.\<close>

definition replace_char :: "char \<Rightarrow> char \<Rightarrow> string \<Rightarrow> string" where
  "replace_char a b s = map (\<lambda>c. if c = a then b else c) s"

definition sanitize :: "string \<Rightarrow> string" where
  "sanitize s =
     replace_char CHR '':'' CHR ''#'' (replace_char CHR ''*'' CHR ''#''
     (replace_char CHR ''|'' CHR ''#'' (replace_char CHR 0x22 CHR ''#''
     (replace_char CHR ''>'' CHR ''#'' (replace_char CHR ''<'' CHR ''#''
     (replace_char CHR 0x5C CHR ''#'' (replace_char CHR ''/'' CHR ''#''
     (replace_char CHR ''?'' CHR ''#'' s))))))))"

text \<open>\<^verbatim>\<open>os.path.join\<close> of two components, as on a POSIX system.\<close>

definition path_join :: "string \<Rightarrow> string \<Rightarrow> string" where
  "path_join a b =
     (if b \<noteq> [] \<and> hd b = CHR ''/'' then b
      else if a = [] \<or> last a = CHR ''/'' then a @ b
      else a @ ''/'' @ b)"

text \<open>
  The file system: what is at a path, if anything. A file is represented by what
  \<^verbatim>\<open>json.load\<close> makes of its content, \<open>None\<close> when that is not a JSON document.
\<close>

datatype fnode = Directory | File "json option"

type_synonym filesystem = "string \<Rightarrow> fnode option"

definition find_json_path ::
  "conversion \<Rightarrow> filesystem \<Rightarrow> catalog_row \<Rightarrow> error + string option" where
  "find_json_path conv fs row =
     bind_err (conv (year row)) (\<lambda>year_str.
     let country = sanitize (to_country row);
         performer = sanitize (performer row);
         song = sanitize (song row);
         json_filename = country @ ''_'' @ song @ ''_'' @ performer @ ''.json'';
         json_path = path_join (path_join ''audio'' year_str) json_filename
     in Inr (if fs json_path \<noteq> None then Some json_path else None))"

text \<open>
  The body of the loop of \<^verbatim>\<open>main\<close>: the flat row of one catalog row. Nothing is caught:
  a file that is not a JSON document raises out of \<^verbatim>\<open>json.load\<close>.
\<close>

definition row_features ::
  "conversion \<Rightarrow> filesystem \<Rightarrow> catalog_row \<Rightarrow> error + pydict" where
  "row_features conv fs row =
     bind_err (find_json_path conv fs row) (\<lambda>json_file_path.
     case json_file_path of
       None \<Rightarrow> flatten_audio_features (JDict [])
     | Some p \<Rightarrow>
         (case fs p of
            Some (File content) \<Rightarrow>
              (case content of
                 None \<Rightarrow> Inl JSONDecodeError
               | Some audio_data \<Rightarrow> flatten_audio_features audio_data)
          | _ \<Rightarrow> flatten_audio_features (JDict [])))"

fun audio_features_list ::
  "conversion \<Rightarrow> filesystem \<Rightarrow> catalog_row list \<Rightarrow> error + pydict list" where
  "audio_features_list conv fs [] = Inr []"
| "audio_features_list conv fs (row # rows) =
     bind_err (row_features conv fs row) (\<lambda>flat_data.
     bind_err (audio_features_list conv fs rows) (\<lambda>rest. Inr (flat_data # rest)))"

text \<open>
  The run: the merged table that \<^verbatim>\<open>to_csv\<close> writes, each catalog row beside its flat
  row (both frames carry the index 0 to N - 1, so \<^verbatim>\<open>pd.concat(axis=1)\<close> pairs them by
  position), and what is printed. The alignment of the flat rows' keys into the columns
  of one frame is not represented.
\<close>

record run_result =
  merged_df :: "(catalog_row \<times> pydict) list"
  printed :: "string list"

definition main ::
  "conversion \<Rightarrow> filesystem \<Rightarrow> catalog_row list \<Rightarrow> error + run_result" where
  "main conv fs df =
     bind_err (audio_features_list conv fs df) (\<lambda>features.
     Inr \<lparr>merged_df = zip df features,
          printed = [''Successfully created contestants_with_audio_features.csv.'']\<rparr>)"

text \<open>The condition of the loop's \<^verbatim>\<open>if\<close>: the row has a JSON file to load.\<close>

definition has_artifact :: "conversion \<Rightarrow> filesystem \<Rightarrow> catalog_row \<Rightarrow> bool" where
  "has_artifact conv fs row =
     (case find_json_path conv fs row of
        Inr (Some p) \<Rightarrow> (case fs p of Some (File _) \<Rightarrow> True | _ \<Rightarrow> False)
      | _ \<Rightarrow> False)"

definition missing_count :: "conversion \<Rightarrow> filesystem \<Rightarrow> catalog_row list \<Rightarrow> nat" where
  "missing_count conv fs df = length (filter (\<lambda>row. \<not> has_artifact conv fs row) df)"

section \<open>The rows the flattener is expected to produce\<close>

text \<open>The triples whose field and statistic are those of the code, whatever the index.\<close>

fun valid_column :: "column \<Rightarrow> bool" where
  "valid_column (Top f) = (f \<in> set top_names)"
| "valid_column (Single f k) = (f \<in> set single_names \<and> k \<in> set stat_keys)"
| "valid_column (Band f i k) = (f \<in> set (map fst band_names) \<and> k \<in> set stat_keys)"

definition stat_cols :: "string \<Rightarrow> stat_summary \<Rightarrow> pydict" where
  "stat_cols p s = map (\<lambda>(k, v). (p @ ''_'' @ k, v)) (stat_items s)"

definition none_cols :: "string \<Rightarrow> pydict" where
  "none_cols p = map (\<lambda>k. (p @ ''_'' @ k, JNull)) stat_keys"

text \<open>
  The columns of one multi-band field: those of the entries the array has, or, for an
  empty array, null columns for the \<open>n\<close> bands of the schema.
\<close>

definition band_cols :: "string \<Rightarrow> nat \<Rightarrow> stat_summary list \<Rightarrow> pydict" where
  "band_cols name n ss =
     (if ss = [] then concat (map (\<lambda>i. none_cols (name @ ''_'' @ str_nat i)) [0..<n])
      else concat (map (\<lambda>(i, s). stat_cols (name @ ''_'' @ str_nat i) s) (enumerate 0 ss)))"

definition flat_row :: "feature_bundle \<Rightarrow> pydict" where
  "flat_row b =
     [(''tempo'', JNum (tempo b)), (''danceability'', JNum (danceability b)),
      (''key'', JStr (key b)), (''duration'', JNum (duration b))]
     @ stat_cols ''chroma_stft_stats'' (chroma_stft_stats b)
     @ stat_cols ''spectral_centroid_stats'' (spectral_centroid_stats b)
     @ stat_cols ''zero_crossing_rate_stats'' (zero_crossing_rate_stats b)
     @ stat_cols ''rms_stats'' (rms_stats b)
     @ band_cols ''mfcc_stats'' 20 (mfcc_stats b)
     @ band_cols ''spectral_contrast_stats'' 7 (spectral_contrast_stats b)
     @ band_cols ''tonnetz_stats'' 6 (tonnetz_stats b)"

text \<open>The row of the empty document: the top-level and the multi-band columns, all null.\<close>

definition empty_row :: pydict where
  "empty_row =
     map (\<lambda>f. (f, JNull)) top_names
     @ concat (map (\<lambda>(name, n). concat (map (\<lambda>i. none_cols (name @ ''_'' @ str_nat i)) [0..<n]))
         band_names)"

text \<open>The triples of a document whose multi-band arrays give \<open>m\<close>, \<open>c\<close> and \<open>t\<close> bands.\<close>

definition columns_for :: "nat \<Rightarrow> nat \<Rightarrow> nat \<Rightarrow> column list" where
  "columns_for m c t =
     map Top top_names @ single_columns @ band_columns ''mfcc_stats'' m
     @ band_columns ''spectral_contrast_stats'' c @ band_columns ''tonnetz_stats'' t"

text \<open>The number of bands a multi-band array of \<open>m\<close> entries gives columns for.\<close>

definition bands_emitted :: "nat \<Rightarrow> nat \<Rightarrow> nat" where
  "bands_emitted n m = (if m = 0 then n else m)"

fun is_dict :: "json \<Rightarrow> bool" where
  "is_dict (JDict _) = True"
| "is_dict _ = False"

text \<open>A multi-band field is usable: missing, not a list, or a list of dictionaries.\<close>

definition band_ok :: "pydict \<Rightarrow> string \<Rightarrow> bool" where
  "band_ok d name =
     (case dict_get d name (JList []) of JList xs \<Rightarrow> list_all is_dict xs | _ \<Rightarrow> True)"

definition bands_ok :: "pydict \<Rightarrow> bool" where
  "bands_ok d \<longleftrightarrow> list_all (\<lambda>(name, n). band_ok d name) band_names"

text \<open>The flat dictionary after the top-level fields and the four single statistics.\<close>

definition single_stage :: "pydict \<Rightarrow> pydict" where
  "single_stage d =
     foldl (single_stats d)
       (dict_set (dict_set (dict_set (dict_set [] ''tempo'' (dict_get d ''tempo'' JNull))
          ''danceability'' (dict_get d ''danceability'' JNull))
          ''key'' (dict_get d ''key'' JNull))
          ''duration'' (dict_get d ''duration'' JNull))
       single_names"

text \<open>
  A catalog row that \<^verbatim>\<open>main\<close> gets through: its year is an integer, and its JSON file, if
  there is one, holds an object whose multi-band arrays hold only objects.
\<close>

definition loadable :: "conversion \<Rightarrow> filesystem \<Rightarrow> catalog_row \<Rightarrow> bool" where
  "loadable conv fs row =
     (case find_json_path conv fs row of
        Inl e \<Rightarrow> False
      | Inr None \<Rightarrow> True
      | Inr (Some p) \<Rightarrow>
          (case fs p of
             Some (File content) \<Rightarrow>
               (case content of Some (JDict d) \<Rightarrow> bands_ok d | _ \<Rightarrow> False)
           | _ \<Rightarrow> True))"

definition success_message :: string where
  "success_message = ''Successfully created contestants_with_audio_features.csv.''"

section \<open>Sample inputs\<close>

definition stat0 :: stat_summary where
  "stat0 = \<lparr>stat_mean = Fin 0, stat_variance = Fin 1, stat_median = Fin 0,
     stat_skewness = Fin 0, stat_kurtosis = Fin 0, stat_min = Fin (- 1), stat_max = Fin 1\<rparr>"

text \<open>A well-formed bundle, and the same bundle with a single cepstral band.\<close>

definition bundle0 :: feature_bundle where
  "bundle0 = \<lparr>tempo = Fin 120, danceability = Fin 1, key = ''C'', duration = Fin 180,
     chroma_stft_stats = stat0, spectral_centroid_stats = stat0,
     zero_crossing_rate_stats = stat0, rms_stats = stat0,
     mfcc_stats = replicate 20 stat0, spectral_contrast_stats = replicate 7 stat0,
     tonnetz_stats = replicate 6 stat0\<rparr>"


definition row0 :: catalog_row where
  "row0 = \<lparr>year = ''1956'', to_country = ''Switzerland'', performer = ''Lys Assia'',
     song = ''Refrain''\<rparr>"

definition row1 :: catalog_row where
  "row1 = \<lparr>year = ''1974'', to_country = ''Sweden'', performer = ''ABBA'',
     song = ''Waterloo''\<rparr>"

text \<open>
  The conversions on the years of the two sample rows: \<^verbatim>\<open>str(int("1956"))\<close> is
  \<^verbatim>\<open>"1956"\<close> and \<^verbatim>\<open>str(int("1974"))\<close> is \<^verbatim>\<open>"1974"\<close>. The sample runs convert no
  other string: the ValueError this table gives to every other string is a filler, not a
  statement about \<^verbatim>\<open>int\<close>.
\<close>

definition sample_conv :: conversion where
  "sample_conv s =
     (if s = ''1956'' then Inr ''1956'' else if s = ''1974'' then Inr ''1974''
      else Inl ValueError)"

text \<open>File systems: no file at all, and the file of \<open>row0\<close> holding a document.\<close>

definition fs_none :: filesystem where
  "fs_none = (\<lambda>p. None)"

definition fs_with :: "json \<Rightarrow> filesystem" where
  "fs_with doc =
     (\<lambda>p. if p = ''audio/1956/Switzerland_Refrain_Lys Assia.json'' then Some (File (Some doc))
          else None)"

text \<open>The file of \<open>row0\<close> holding something that is not a JSON document.\<close>

definition fs_corrupt :: filesystem where
  "fs_corrupt =
     (\<lambda>p. if p = ''audio/1956/Switzerland_Refrain_Lys Assia.json'' then Some (File None)
          else None)"

text \<open>The double that the literal \<^verbatim>\<open>0.1\<close> denotes.\<close>

definition tenth :: real where
  "tenth = round_double (1 / 10)"

text \<open>
  The features of a recording in which the beat tracker finds no beat, as it does on
  digital silence: the tempo is 0 and there is no beat frame.
\<close>

definition beatless :: librosa_features where
  "beatless = \<lparr>lr_tempo = 0, lr_beat_frames = [],
     lr_chroma = replicate 12 [0, 0],
     lr_spectral_centroid = [[0, 0]],
     lr_zero_crossing_rate = [[0, 0]],
     lr_mfcc = replicate 20 [0, 0],
     lr_spectral_contrast = replicate 7 [0, 0],
     lr_tonnetz = replicate 6 [0, 0],
     lr_rms = [[0, 0]],
     lr_chroma_cens = replicate 12 [0, 0],
     lr_duration = 1\<rparr>"

section \<open>Dictionaries and strings: auxiliary facts\<close>

lemma lt10_cases: "d < 10 \<Longrightarrow> d \<in> {0, 1, 2, 3, 4, 5, 6, 7, 8, 9::nat}"
  by auto

lemma digit_not_underscore: "d < 10 \<Longrightarrow> digit d \<noteq> CHR ''_''"
  by (drule lt10_cases) (auto simp: digit_def)

lemma digit_not_s: "d < 10 \<Longrightarrow> digit d \<noteq> CHR ''s''"
  by (drule lt10_cases) (auto simp: digit_def)

lemma digit_inj: "d < 10 \<Longrightarrow> e < 10 \<Longrightarrow> digit d = digit e \<Longrightarrow> d = e"
  by (drule lt10_cases, drule lt10_cases) (auto simp: digit_def)

lemma str_nat_nonempty: "str_nat n \<noteq> []"
  by (subst str_nat.simps) simp

lemma str_nat_nonempty': "[] \<noteq> str_nat n"
  using str_nat_nonempty [of n] by auto

lemma str_nat_last: "last (str_nat n) = digit (n mod 10)"
  by (subst str_nat.simps) simp

lemma str_nat_no_underscore: "CHR ''_'' \<notin> set (str_nat n)"
proof (induction n rule: str_nat.induct)
  case (1 n)
  show ?case
  proof (cases "n < 10")
    case True
    then show ?thesis using digit_not_underscore [of n]
      by (subst str_nat.simps) auto
  next
    case False
    have "n mod 10 < 10" by simp
    then have "digit (n mod 10) \<noteq> CHR ''_''" by (rule digit_not_underscore)
    with False 1 show ?thesis
      by (subst str_nat.simps) auto
  qed
qed

lemma str_nat_inj: "str_nat m = str_nat n \<Longrightarrow> m = n"
proof (induction m arbitrary: n rule: str_nat.induct)
  case (1 m)
  show ?case
  proof (cases "m < 10")
    case m: True
    show ?thesis
    proof (cases "n < 10")
      case True
      with m "1.prems" show ?thesis
        by (simp add: str_nat.simps [of m] str_nat.simps [of n] digit_inj)
    next
      case False
      with m "1.prems" show ?thesis
        by (simp add: str_nat.simps [of m] str_nat.simps [of n] str_nat_nonempty')
    qed
  next
    case m: False
    show ?thesis
    proof (cases "n < 10")
      case True
      with m "1.prems" show ?thesis
        by (simp add: str_nat.simps [of m] str_nat.simps [of n] str_nat_nonempty)
    next
      case False
      with m "1.prems" have eq: "str_nat (m div 10) = str_nat (n div 10)"
        and dg: "digit (m mod 10) = digit (n mod 10)"
        by (simp_all add: str_nat.simps [of m] str_nat.simps [of n])
      from "1.IH" [OF m eq] have "m div 10 = n div 10" .
      moreover from dg have "m mod 10 = n mod 10"
        by (intro digit_inj) simp_all
      ultimately show ?thesis
        by (metis div_mult_mod_eq)
    qed
  qed
qed

lemma first_sep_split:
  "x \<notin> set xs \<Longrightarrow> x \<notin> set xs' \<Longrightarrow> xs @ x # ys = xs' @ x # ys' \<Longrightarrow> xs = xs' \<and> ys = ys'"
proof (induction xs arbitrary: xs')
  case Nil
  then show ?case by (cases xs') auto
next
  case (Cons a xs)
  then show ?case by (cases xs') auto
qed

lemma underscore_split:
  assumes "CHR ''_'' \<notin> set k" "CHR ''_'' \<notin> set k'" "p @ ''_'' @ k = p' @ ''_'' @ k'"
  shows "p = p' \<and> k = k'"
proof -
  from assms(3) have "rev (p @ ''_'' @ k) = rev (p' @ ''_'' @ k')" by simp
  then have "rev k @ CHR ''_'' # rev p = rev k' @ CHR ''_'' # rev p'"
    by simp
  moreover have "CHR ''_'' \<notin> set (rev k)" "CHR ''_'' \<notin> set (rev k')"
    using assms(1,2) by simp_all
  ultimately have "rev k = rev k' \<and> rev p = rev p'"
    by (intro first_sep_split)
  then show ?thesis by simp
qed

lemma map_of_dict_set: "map_of (dict_set d k v) = (map_of d)(k \<mapsto> v)"
  by (induction d k v rule: dict_set.induct) (auto simp: fun_eq_iff)

lemma dict_set_fresh: "k \<notin> fst ` set d \<Longrightarrow> dict_set d k v = d @ [(k, v)]"
  by (induction d k v rule: dict_set.induct) auto

lemma item_columns_fresh:
  "distinct (map fst d @ map (\<lambda>(k, v). p @ ''_'' @ k) items) \<Longrightarrow>
   item_columns d p items = d @ map (\<lambda>(k, v). (p @ ''_'' @ k, v)) items"
proof (induction items arbitrary: d)
  case Nil
  then show ?case by (simp add: item_columns_def)
next
  case (Cons kv items)
  obtain k v where kv: "kv = (k, v)" by (cases kv)
  from Cons.prems have fresh: "p @ ''_'' @ k \<notin> fst ` set d"
    by (auto simp: kv)
  from Cons.prems have "distinct (map fst (d @ [(p @ ''_'' @ k, v)]) @ map (\<lambda>(k, v). p @ ''_'' @ k) items)"
    by (auto simp: kv)
  from Cons.IH [OF this] show ?case
    using fresh by (simp add: item_columns_def kv dict_set_fresh)
qed

lemma none_columns_items:
  "none_columns d p = item_columns d p (map (\<lambda>k. (k, JNull)) stat_keys)"
  by (simp add: none_columns_def item_columns_def foldl_map)

lemma stat_key_no_underscore: "k \<in> set stat_keys \<Longrightarrow> CHR ''_'' \<notin> set k"
  by (auto simp: stat_keys_def)

lemma top_name_no_underscore: "f \<in> set top_names \<Longrightarrow> CHR ''_'' \<notin> set f"
  by (auto simp: top_names_def)

lemma single_name_last: "f \<in> set single_names \<Longrightarrow> last f = CHR ''s''"
  by (auto simp: single_names_def)

lemma single_not_band: 
  assumes "f \<in> set single_names" shows "f \<noteq> g @ ''_'' @ str_nat i"
proof
  assume "f = g @ ''_'' @ str_nat i"
  then have "last f = last (str_nat i)" by (simp add: str_nat_nonempty)
  then have "digit (i mod 10) = CHR ''s''"
    using single_name_last [OF assms] by (simp add: str_nat_last)
  moreover have "i mod 10 < 10" by simp
  ultimately show False using digit_not_s by blast
qed

lemma column_name_inj:
  assumes "valid_column c" "valid_column c'" "column_name c = column_name c'"
  shows "c = c'"
proof (cases c)
  case c: (Top f)
  show ?thesis
  proof (cases c')
    case (Top f')
    with c assms show ?thesis by simp
  next
    case (Single f' k')
    with c assms top_name_no_underscore [of f] show ?thesis by auto
  next
    case (Band f' i' k')
    with c assms top_name_no_underscore [of f] show ?thesis by auto
  qed
next
  case c: (Single f k)
  show ?thesis
  proof (cases c')
    case (Top f')
    with c assms top_name_no_underscore [of f'] show ?thesis by auto
  next
    case (Single f' k')
    with c assms underscore_split [of k k' f f'] show ?thesis
      by (auto dest: stat_key_no_underscore)
  next
    case (Band f' i' k')
    with c assms have "f @ ''_'' @ k = (f' @ ''_'' @ str_nat i') @ ''_'' @ k'"
      and "CHR ''_'' \<notin> set k" "CHR ''_'' \<notin> set k'" "f \<in> set single_names"
      by (auto dest: stat_key_no_underscore)
    then have "f = f' @ ''_'' @ str_nat i'"
      using underscore_split by blast
    with single_not_band [OF \<open>f \<in> set single_names\<close>] show ?thesis by blast
  qed
next
  case c: (Band f i k)
  show ?thesis
  proof (cases c')
    case (Top f')
    with c assms top_name_no_underscore [of f'] show ?thesis by auto
  next
    case (Single f' k')
    with c assms have "f' @ ''_'' @ k' = (f @ ''_'' @ str_nat i) @ ''_'' @ k"
      and "CHR ''_'' \<notin> set k" "CHR ''_'' \<notin> set k'" "f' \<in> set single_names"
      by (auto dest: stat_key_no_underscore)
    then have "f' = f @ ''_'' @ str_nat i"
      using underscore_split by blast
    with single_not_band [OF \<open>f' \<in> set single_names\<close>] show ?thesis by blast
  next
    case (Band f' i' k')
    with c assms have eq: "(f @ ''_'' @ str_nat i) @ ''_'' @ k = (f' @ ''_'' @ str_nat i') @ ''_'' @ k'"
      and k: "CHR ''_'' \<notin> set k" "CHR ''_'' \<notin> set k'"
      by (auto dest: stat_key_no_underscore)
    from underscore_split [OF k eq] have 1: "f @ ''_'' @ str_nat i = f' @ ''_'' @ str_nat i'" and 2: "k = k'"
      by simp_all
    from underscore_split [OF str_nat_no_underscore str_nat_no_underscore 1]
    have "f = f'" "str_nat i = str_nat i'" by simp_all
    with 2 str_nat_inj c Band show ?thesis by auto
  qed
qed

section \<open>The flattener on the documents the extractor writes\<close>

lemma schema_columns_for: "schema = columns_for 20 7 6"
  by (simp add: schema_def columns_for_def band_names_def)

lemma band_columns_Suc:
  "band_columns f (Suc n) = band_columns f n @ map (Band f n) stat_keys"
  by (simp add: band_columns_def)

lemma set_band_columns:
  "set (band_columns f n) = {Band f i k | i k. i < n \<and> k \<in> set stat_keys}"
  by (auto simp: band_columns_def)

lemma distinct_stat_keys: "distinct stat_keys"
  by (simp add: stat_keys_def)

lemma length_stat_keys: "length stat_keys = 7"
  by (simp add: stat_keys_def)

lemma distinct_band_columns: "distinct (band_columns f n)"
proof (induction n)
  case 0
  show ?case by (simp add: band_columns_def)
next
  case (Suc n)
  have "distinct (map (Band f n) stat_keys)"
    by (simp add: distinct_map distinct_stat_keys inj_on_def)
  with Suc show ?case
    by (auto simp: band_columns_Suc set_band_columns)
qed

lemma length_band_columns: "length (band_columns f n) = 7 * n"
  by (induction n) (simp_all add: band_columns_Suc length_stat_keys, simp add: band_columns_def)

lemma set_single_columns:
  "set single_columns = {Single f k | f k. f \<in> set single_names \<and> k \<in> set stat_keys}"
  by (auto simp: single_columns_def)

lemma stat_keys_nonempty: "stat_keys \<noteq> []"
  by (simp add: stat_keys_def)

lemma distinct_single_columns: "distinct single_columns"
  unfolding single_columns_def
  by (rule distinct_concat)
     (auto simp: distinct_map inj_on_def distinct_stat_keys single_names_def stat_keys_nonempty)

lemma length_single_columns: "length single_columns = 28"
  by (simp add: single_columns_def single_names_def length_stat_keys)

lemma distinct_columns_for: "distinct (columns_for m c t)"
  by (auto simp: columns_for_def distinct_band_columns distinct_single_columns
      set_band_columns set_single_columns distinct_map inj_on_def top_names_def)

lemma valid_columns_for: "x \<in> set (columns_for m c t) \<Longrightarrow> valid_column x"
  by (auto simp: columns_for_def set_band_columns set_single_columns band_names_def)

lemma length_columns_for: "length (columns_for m c t) = 32 + 7 * m + 7 * c + 7 * t"
  by (simp add: columns_for_def length_band_columns length_single_columns top_names_def)

lemma inj_on_column_name: "inj_on column_name (set (columns_for m c t))"
  by (rule inj_onI) (blast intro: column_name_inj valid_columns_for)

lemma distinct_column_names: "distinct (map column_name (columns_for m c t))"
  by (simp add: distinct_map distinct_columns_for inj_on_column_name)

lemma keys_stat_cols: "map fst (stat_cols p s) = map (\<lambda>k. p @ ''_'' @ k) stat_keys"
  by (simp add: stat_cols_def stat_items_def stat_keys_def)

lemma keys_none_cols: "map fst (none_cols p) = map (\<lambda>k. p @ ''_'' @ k) stat_keys"
  by (simp add: none_cols_def comp_def)

lemma names_band_columns:
  "map column_name (band_columns f n) =
   concat (map (\<lambda>i. map (\<lambda>k. f @ ''_'' @ str_nat i @ ''_'' @ k) stat_keys) [0..<n])"
  by (simp add: band_columns_def map_concat comp_def)

lemma map_fst_enumerate_fun:
  "map (\<lambda>x. g (fst x)) (enumerate n xs) = map g [n..<n + length xs]"
proof -
  have "map (g \<circ> fst) (enumerate n xs) = map g (map fst (enumerate n xs))"
    by (simp only: map_map)
  also have "\<dots> = map g [n..<n + length xs]"
    by (simp only: map_fst_enumerate)
  finally show ?thesis by (simp only: comp_def)
qed

lemma keys_band_cols:
  "map fst (band_cols name n ss) =
   map column_name (band_columns name (bands_emitted n (length ss)))"
proof (cases "ss = []")
  case True
  then show ?thesis
    by (simp add: band_cols_def bands_emitted_def names_band_columns map_concat comp_def
        keys_none_cols)
next
  case False
  have "map (\<lambda>x. map fst (case x of (i, s) \<Rightarrow> stat_cols (name @ ''_'' @ str_nat i) s)) (enumerate 0 ss)
      = map (\<lambda>x. map (\<lambda>k. name @ ''_'' @ str_nat (fst x) @ ''_'' @ k) stat_keys) (enumerate 0 ss)"
    by (simp add: case_prod_beta keys_stat_cols)
  also have "\<dots> = map (\<lambda>i. map (\<lambda>k. name @ ''_'' @ str_nat i @ ''_'' @ k) stat_keys) [0..<length ss]"
    using map_fst_enumerate_fun [of "\<lambda>i. map (\<lambda>k. name @ ''_'' @ str_nat i @ ''_'' @ k) stat_keys" 0 ss]
    by simp
  finally show ?thesis using False
    by (simp add: band_cols_def bands_emitted_def names_band_columns map_concat comp_def)
qed

lemma names_single_columns:
  "map column_name single_columns =
   concat (map (\<lambda>f. map (\<lambda>k. f @ ''_'' @ k) stat_keys) single_names)"
  by (simp add: single_columns_def map_concat comp_def)

lemma keys_flat_row:
  "map fst (flat_row b) =
   map column_name (columns_for (bands_emitted 20 (length (mfcc_stats b)))
     (bands_emitted 7 (length (spectral_contrast_stats b)))
     (bands_emitted 6 (length (tonnetz_stats b))))"
  by (simp add: flat_row_def columns_for_def keys_band_cols keys_stat_cols
      names_single_columns single_names_def top_names_def)

lemma distinct_keys_flat_row: "distinct (map fst (flat_row b))"
  by (simp only: keys_flat_row distinct_column_names)

lemma length_flat_row:
  "length (flat_row b) = 32 + 7 * bands_emitted 20 (length (mfcc_stats b))
     + 7 * bands_emitted 7 (length (spectral_contrast_stats b))
     + 7 * bands_emitted 6 (length (tonnetz_stats b))"
proof -
  have "length (flat_row b) = length (map fst (flat_row b))" by simp
  also have "\<dots> = 32 + 7 * bands_emitted 20 (length (mfcc_stats b))
     + 7 * bands_emitted 7 (length (spectral_contrast_stats b))
     + 7 * bands_emitted 6 (length (tonnetz_stats b))"
    by (simp only: keys_flat_row length_map length_columns_for)
  finally show ?thesis .
qed

lemma distinct_app3_prefix: "distinct (xs @ ys @ zs) \<Longrightarrow> distinct (xs @ ys)"
  by auto

lemma none_columns_fresh:
  assumes "distinct (map fst flat @ map (\<lambda>k. p @ ''_'' @ k) stat_keys)"
  shows "none_columns flat p = flat @ none_cols p"
proof -
  have "distinct (map fst flat @ map (\<lambda>(k, v). p @ ''_'' @ k) (map (\<lambda>k. (k, JNull)) stat_keys))"
    using assms by (simp add: comp_def)
  from item_columns_fresh [OF this] show ?thesis
    by (simp add: none_columns_items none_cols_def comp_def)
qed

lemma single_stats_fresh:
  assumes "dict_get d f (JDict []) = JDict (stat_items s)"
    and "distinct (map fst flat @ map fst (stat_cols f s))"
  shows "single_stats d flat f = flat @ stat_cols f s"
proof -
  have "map fst (stat_cols f s) = map (\<lambda>(k, v). f @ ''_'' @ k) (stat_items s)"
    by (simp add: stat_cols_def comp_def case_prod_unfold)
  with assms(2) have "distinct (map fst flat @ map (\<lambda>(k, v). f @ ''_'' @ k) (stat_items s))"
    by simp
  from item_columns_fresh [OF this] show ?thesis
    by (simp add: single_stats_def assms(1) stat_cols_def)
qed

lemma band_items_fresh:
  "distinct (map fst flat @ concat (map (\<lambda>(i, s). map fst (stat_cols (name @ ''_'' @ str_nat i) s)) (enumerate i0 ss))) \<Longrightarrow>
   band_items name flat i0 (map (\<lambda>s. JDict (stat_items s)) ss) =
   Inr (flat @ concat (map (\<lambda>(i, s). stat_cols (name @ ''_'' @ str_nat i) s) (enumerate i0 ss)))"
proof (induction ss arbitrary: flat i0)
  case Nil
  show ?case by simp
next
  case (Cons s ss)
  let ?p = "name @ ''_'' @ str_nat i0"
  have keys: "map fst (stat_cols ?p s) = map (\<lambda>(k, v). ?p @ ''_'' @ k) (stat_items s)"
    by (simp add: stat_cols_def comp_def case_prod_unfold)
  from Cons.prems
  have all: "distinct (map fst flat @ map fst (stat_cols ?p s)
     @ concat (map (\<lambda>(i, s). map fst (stat_cols (name @ ''_'' @ str_nat i) s)) (enumerate (Suc i0) ss)))"
    by simp
  then have "distinct (map fst flat @ map fst (stat_cols ?p s))"
    by (rule distinct_app3_prefix)
  then have "distinct (map fst flat @ map (\<lambda>(k, v). ?p @ ''_'' @ k) (stat_items s))"
    by (simp only: keys)
  from item_columns_fresh [OF this]
  have step: "item_columns flat ?p (stat_items s) = flat @ stat_cols ?p s"
    by (simp add: stat_cols_def)
  from all
  have "distinct (map fst (flat @ stat_cols ?p s)
     @ concat (map (\<lambda>(i, s). map fst (stat_cols (name @ ''_'' @ str_nat i) s)) (enumerate (Suc i0) ss)))"
    by (simp only: map_append append_assoc)
  from Cons.IH [OF this] show ?case
    using step by simp
qed

lemma band_nones_fresh:
  "distinct (map fst flat @ concat (map (\<lambda>i. map fst (none_cols (name @ ''_'' @ str_nat i))) js)) \<Longrightarrow>
   foldl (\<lambda>fl i. none_columns fl (name @ ''_'' @ str_nat i)) flat js =
   flat @ concat (map (\<lambda>i. none_cols (name @ ''_'' @ str_nat i)) js)"
proof (induction js arbitrary: flat)
  case Nil
  show ?case by simp
next
  case (Cons j js)
  let ?p = "name @ ''_'' @ str_nat j"
  from Cons.prems
  have all: "distinct (map fst flat @ map fst (none_cols ?p)
     @ concat (map (\<lambda>i. map fst (none_cols (name @ ''_'' @ str_nat i))) js))"
    by simp
  then have "distinct (map fst flat @ map fst (none_cols ?p))"
    by (rule distinct_app3_prefix)
  then have "distinct (map fst flat @ map (\<lambda>k. ?p @ ''_'' @ k) stat_keys)"
    by (simp only: keys_none_cols)
  from none_columns_fresh [OF this]
  have step: "none_columns flat ?p = flat @ none_cols ?p" .
  from all
  have "distinct (map fst (flat @ none_cols ?p)
     @ concat (map (\<lambda>i. map fst (none_cols (name @ ''_'' @ str_nat i))) js))"
    by (simp only: map_append append_assoc)
  from Cons.IH [OF this] show ?case
    using step by simp
qed

lemma band_stats_fresh:
  assumes "dict_get d name (JList []) = JList (map (\<lambda>s. JDict (stat_items s)) ss)"
    and "distinct (map fst flat @ map fst (band_cols name n ss))"
  shows "band_stats d flat name n = Inr (flat @ band_cols name n ss)"
proof (cases ss)
  case Nil
  then have eq: "map fst (band_cols name n ss)
    = concat (map (\<lambda>i. map fst (none_cols (name @ ''_'' @ str_nat i))) [0..<n])"
    by (simp add: band_cols_def map_concat comp_def)
  from assms(2)
  have "distinct (map fst flat @ concat (map (\<lambda>i. map fst (none_cols (name @ ''_'' @ str_nat i))) [0..<n]))"
    by (simp only: eq)
  from band_nones_fresh [OF this] show ?thesis
    using Nil by (simp add: band_stats_def assms(1) band_nones_def band_cols_def)
next
  case (Cons s rest)
  then have "ss \<noteq> []" by simp
  then have eq: "map fst (band_cols name n ss)
    = concat (map (\<lambda>(i, s). map fst (stat_cols (name @ ''_'' @ str_nat i) s)) (enumerate 0 ss))"
    by (simp add: band_cols_def map_concat comp_def case_prod_unfold)
  from assms(2)
  have "distinct (map fst flat @ concat (map (\<lambda>(i, s). map fst (stat_cols (name @ ''_'' @ str_nat i) s)) (enumerate 0 ss)))"
    by (simp only: eq)
  from band_items_fresh [OF this]
  have "band_items name flat 0 (map (\<lambda>s. JDict (stat_items s)) ss)
    = Inr (flat @ band_cols name n ss)"
    using Cons by (simp add: band_cols_def)
  then show ?thesis
    using Cons by (simp add: band_stats_def assms(1))
qed

lemma single_stats_fresh':
  assumes "dict_get d f (JDict []) = JDict (stat_items s)"
    and "distinct (map fst flat @ map fst (stat_cols f s) @ rest)"
  shows "single_stats d flat f = flat @ stat_cols f s"
  using assms(1) distinct_app3_prefix [OF assms(2)] by (rule single_stats_fresh)

lemma band_stats_fresh':
  assumes "dict_get d name (JList []) = JList (map (\<lambda>s. JDict (stat_items s)) ss)"
    and "distinct (map fst flat @ map fst (band_cols name n ss) @ rest)"
  shows "band_stats d flat name n = Inr (flat @ band_cols name n ss)"
  using assms(1) distinct_app3_prefix [OF assms(2)] by (rule band_stats_fresh)

lemma flatten_features:
  "flatten_audio_features (JDict (features_dict b)) = Inr (flat_row b)"
proof -
  let ?d = "features_dict b"
  let ?T = "[(''tempo'', JNum (tempo b)), (''danceability'', JNum (danceability b)),
      (''key'', JStr (key b)), (''duration'', JNum (duration b))]"
  let ?A1 = "stat_cols ''chroma_stft_stats'' (chroma_stft_stats b)"
  let ?A2 = "stat_cols ''spectral_centroid_stats'' (spectral_centroid_stats b)"
  let ?A3 = "stat_cols ''zero_crossing_rate_stats'' (zero_crossing_rate_stats b)"
  let ?A4 = "stat_cols ''rms_stats'' (rms_stats b)"
  let ?B1 = "band_cols ''mfcc_stats'' 20 (mfcc_stats b)"
  let ?B2 = "band_cols ''spectral_contrast_stats'' 7 (spectral_contrast_stats b)"
  let ?B3 = "band_cols ''tonnetz_stats'' 6 (tonnetz_stats b)"
  have D: "distinct (map fst ?T @ map fst ?A1 @ map fst ?A2 @ map fst ?A3 @ map fst ?A4
      @ map fst ?B1 @ map fst ?B2 @ map fst ?B3 @ [])"
    using distinct_keys_flat_row [of b] by (simp only: flat_row_def map_append append_Nil2)
  have top: "dict_set (dict_set (dict_set (dict_set [] ''tempo'' (dict_get ?d ''tempo'' JNull))
      ''danceability'' (dict_get ?d ''danceability'' JNull))
      ''key'' (dict_get ?d ''key'' JNull))
      ''duration'' (dict_get ?d ''duration'' JNull) = ?T"
    by (simp add: dict_get_def features_dict_def)
  have s1: "single_stats ?d ?T ''chroma_stft_stats'' = ?T @ ?A1"
    by (rule single_stats_fresh' [OF _ D]) (simp add: dict_get_def features_dict_def)
  have "distinct (map fst (?T @ ?A1) @ map fst ?A2 @ map fst ?A3 @ map fst ?A4
      @ map fst ?B1 @ map fst ?B2 @ map fst ?B3 @ [])"
    using D by (simp only: map_append append_assoc)
  then have s2: "single_stats ?d (?T @ ?A1) ''spectral_centroid_stats'' = (?T @ ?A1) @ ?A2"
    by (rule single_stats_fresh' [rotated]) (simp add: dict_get_def features_dict_def)
  have "distinct (map fst ((?T @ ?A1) @ ?A2) @ map fst ?A3 @ map fst ?A4
      @ map fst ?B1 @ map fst ?B2 @ map fst ?B3 @ [])"
    using D by (simp only: map_append append_assoc)
  then have s3: "single_stats ?d ((?T @ ?A1) @ ?A2) ''zero_crossing_rate_stats''
      = ((?T @ ?A1) @ ?A2) @ ?A3"
    by (rule single_stats_fresh' [rotated]) (simp add: dict_get_def features_dict_def)
  have "distinct (map fst (((?T @ ?A1) @ ?A2) @ ?A3) @ map fst ?A4
      @ map fst ?B1 @ map fst ?B2 @ map fst ?B3 @ [])"
    using D by (simp only: map_append append_assoc)
  then have s4: "single_stats ?d (((?T @ ?A1) @ ?A2) @ ?A3) ''rms_stats''
      = (((?T @ ?A1) @ ?A2) @ ?A3) @ ?A4"
    by (rule single_stats_fresh' [rotated]) (simp add: dict_get_def features_dict_def)
  have "distinct (map fst ((((?T @ ?A1) @ ?A2) @ ?A3) @ ?A4)
      @ map fst ?B1 @ map fst ?B2 @ map fst ?B3 @ [])"
    using D by (simp only: map_append append_assoc)
  then have b1: "band_stats ?d ((((?T @ ?A1) @ ?A2) @ ?A3) @ ?A4) ''mfcc_stats'' 20
      = Inr (((((?T @ ?A1) @ ?A2) @ ?A3) @ ?A4) @ ?B1)"
    by (rule band_stats_fresh' [rotated]) (simp add: dict_get_def features_dict_def)
  have "distinct (map fst (((((?T @ ?A1) @ ?A2) @ ?A3) @ ?A4) @ ?B1)
      @ map fst ?B2 @ map fst ?B3 @ [])"
    using D by (simp only: map_append append_assoc)
  then have b2: "band_stats ?d (((((?T @ ?A1) @ ?A2) @ ?A3) @ ?A4) @ ?B1)
      ''spectral_contrast_stats'' 7
      = Inr ((((((?T @ ?A1) @ ?A2) @ ?A3) @ ?A4) @ ?B1) @ ?B2)"
    by (rule band_stats_fresh' [rotated]) (simp add: dict_get_def features_dict_def)
  have "distinct (map fst ((((((?T @ ?A1) @ ?A2) @ ?A3) @ ?A4) @ ?B1) @ ?B2)
      @ map fst ?B3 @ [])"
    using D by (simp only: map_append append_assoc)
  then have b3: "band_stats ?d ((((((?T @ ?A1) @ ?A2) @ ?A3) @ ?A4) @ ?B1) @ ?B2)
      ''tonnetz_stats'' 6
      = Inr (((((((?T @ ?A1) @ ?A2) @ ?A3) @ ?A4) @ ?B1) @ ?B2) @ ?B3)"
    by (rule band_stats_fresh' [rotated]) (simp add: dict_get_def features_dict_def)
  have "flatten_audio_features (JDict ?d)
      = Inr (((((((?T @ ?A1) @ ?A2) @ ?A3) @ ?A4) @ ?B1) @ ?B2) @ ?B3)"
    unfolding flatten_audio_features_def
    by (simp only: json.case Let_def single_names_def foldl.simps top s1 s2 s3 s4 b1 b2 b3
        bind_err_def sum.case)
  then show ?thesis
    by (simp only: flat_row_def append_assoc)
qed

section \<open>The flattener on the empty document\<close>

lemma keys_empty_row:
  "map fst empty_row = map column_name (map Top top_names @ band_columns ''mfcc_stats'' 20
     @ band_columns ''spectral_contrast_stats'' 7 @ band_columns ''tonnetz_stats'' 6)"
  by (simp add: empty_row_def band_names_def names_band_columns map_concat comp_def
      keys_none_cols top_names_def)

lemma distinct_sub_append: "distinct (xs @ ys @ zs) \<Longrightarrow> distinct (xs @ zs)"
  by auto

lemma distinct_keys_empty_row: "distinct (map fst empty_row)"
proof -
  have "distinct (map column_name (map Top top_names) @ map column_name single_columns
     @ map column_name (band_columns ''mfcc_stats'' 20
     @ band_columns ''spectral_contrast_stats'' 7 @ band_columns ''tonnetz_stats'' 6))"
    using distinct_column_names [of 20 7 6] by (simp only: columns_for_def map_append)
  then have "distinct (map column_name (map Top top_names)
     @ map column_name (band_columns ''mfcc_stats'' 20
     @ band_columns ''spectral_contrast_stats'' 7 @ band_columns ''tonnetz_stats'' 6))"
    by (rule distinct_sub_append)
  then show ?thesis by (simp only: keys_empty_row map_append)
qed

lemma length_empty_row: "length empty_row = 235"
proof -
  have "length empty_row = length (map fst empty_row)" by simp
  also have "\<dots> = 235"
    by (simp only: keys_empty_row length_map length_append length_band_columns)
       (simp add: top_names_def)
  finally show ?thesis .
qed

lemma values_empty_row: "(k, v) \<in> set empty_row \<Longrightarrow> v = JNull"
  by (auto simp: empty_row_def none_cols_def)

lemma single_stats_missing:
  "map_of d f = None \<Longrightarrow> single_stats d flat f = flat"
  by (simp add: single_stats_def dict_get_def item_columns_def)

lemma band_stats_missing_fresh:
  assumes "map_of d name = None"
    and "distinct (map fst flat @ concat (map (\<lambda>i. map fst (none_cols (name @ ''_'' @ str_nat i))) [0..<n]) @ rest)"
  shows "band_stats d flat name n = Inr (flat @ concat (map (\<lambda>i. none_cols (name @ ''_'' @ str_nat i)) [0..<n]))"
  using band_nones_fresh [OF distinct_app3_prefix [OF assms(2)]] assms(1)
  by (simp add: band_stats_def dict_get_def band_nones_def)

lemma flatten_empty: "flatten_audio_features (JDict []) = Inr empty_row"
proof -
  let ?T = "[(''tempo'', JNull), (''danceability'', JNull), (''key'', JNull), (''duration'', JNull)]"
  let ?B = "\<lambda>name n. concat (map (\<lambda>i. none_cols (name @ ''_'' @ str_nat i)) [0..<n])"
  let ?K = "\<lambda>name n. concat (map (\<lambda>i. map fst (none_cols (name @ ''_'' @ str_nat i))) [0..<n])"
  have E: "empty_row = ?T @ ?B ''mfcc_stats'' 20 @ ?B ''spectral_contrast_stats'' 7 @ ?B ''tonnetz_stats'' 6"
    by (simp add: empty_row_def band_names_def top_names_def)
  have K: "map fst (?B name n) = ?K name n" for name n
    by (simp add: map_concat comp_def)
  have D: "distinct (map fst ?T @ ?K ''mfcc_stats'' 20 @ ?K ''spectral_contrast_stats'' 7 @ ?K ''tonnetz_stats'' 6 @ [])"
    using distinct_keys_empty_row by (simp only: E map_append K append_Nil2)
  have top: "dict_set (dict_set (dict_set (dict_set [] ''tempo'' (dict_get [] ''tempo'' JNull))
      ''danceability'' (dict_get [] ''danceability'' JNull))
      ''key'' (dict_get [] ''key'' JNull))
      ''duration'' (dict_get [] ''duration'' JNull) = ?T"
    by (simp add: dict_get_def)
  have s: "single_stats [] flat f = flat" for flat f
    by (rule single_stats_missing) simp
  have b1: "band_stats [] ?T ''mfcc_stats'' 20 = Inr (?T @ ?B ''mfcc_stats'' 20)"
    by (rule band_stats_missing_fresh [OF _ D]) simp
  have "distinct (map fst (?T @ ?B ''mfcc_stats'' 20) @ ?K ''spectral_contrast_stats'' 7 @ ?K ''tonnetz_stats'' 6 @ [])"
    using D by (simp only: map_append append_assoc K)
  then have b2: "band_stats [] (?T @ ?B ''mfcc_stats'' 20) ''spectral_contrast_stats'' 7
     = Inr ((?T @ ?B ''mfcc_stats'' 20) @ ?B ''spectral_contrast_stats'' 7)"
    by (rule band_stats_missing_fresh [rotated]) simp
  have "distinct (map fst ((?T @ ?B ''mfcc_stats'' 20) @ ?B ''spectral_contrast_stats'' 7) @ ?K ''tonnetz_stats'' 6 @ [])"
    using D by (simp only: map_append append_assoc K)
  then have b3: "band_stats [] ((?T @ ?B ''mfcc_stats'' 20) @ ?B ''spectral_contrast_stats'' 7) ''tonnetz_stats'' 6
     = Inr (((?T @ ?B ''mfcc_stats'' 20) @ ?B ''spectral_contrast_stats'' 7) @ ?B ''tonnetz_stats'' 6)"
    by (rule band_stats_missing_fresh [rotated]) simp
  have "flatten_audio_features (JDict [])
     = Inr (((?T @ ?B ''mfcc_stats'' 20) @ ?B ''spectral_contrast_stats'' 7) @ ?B ''tonnetz_stats'' 6)"
    unfolding flatten_audio_features_def
    by (simp only: json.case Let_def single_names_def foldl.simps top s b1 b2 b3
        bind_err_def sum.case)
  then show ?thesis
    by (simp only: E append_assoc)
qed

section \<open>The flattener on arbitrary dictionaries\<close>

lemma map_of_item_columns_other:
  "(\<And>x. col \<noteq> p @ ''_'' @ x) \<Longrightarrow> map_of (item_columns flat p items) col = map_of flat col"
proof (induction items arbitrary: flat)
  case Nil
  show ?case by (simp add: item_columns_def)
next
  case (Cons kv items)
  obtain k v where kv: "kv = (k, v)" by (cases kv)
  have "item_columns flat p (kv # items) = item_columns (dict_set flat (p @ ''_'' @ k) v) p items"
    by (simp add: item_columns_def kv)
  with Cons.IH [OF Cons.prems] Cons.prems [of k] show ?case
    by (simp add: map_of_dict_set)
qed

lemma map_of_none_columns:
  "map_of (none_columns flat p) col =
   (if col \<in> (\<lambda>k. p @ ''_'' @ k) ` set stat_keys then Some JNull else map_of flat col)"
  by (auto simp: none_columns_def stat_keys_def map_of_dict_set)

lemma map_of_none_columns_other:
  "(\<And>x. col \<noteq> p @ ''_'' @ x) \<Longrightarrow> map_of (none_columns flat p) col = map_of flat col"
  by (simp add: none_columns_items map_of_item_columns_other)

lemma map_of_single_stats_other:
  "(\<And>x. col \<noteq> f @ ''_'' @ x) \<Longrightarrow> map_of (single_stats d flat f) col = map_of flat col"
  by (simp add: single_stats_def map_of_item_columns_other map_of_none_columns_other
      split: json.split)

lemma map_of_band_items_other:
  "band_items name flat i xs = Inr flat' \<Longrightarrow> (\<And>x. col \<noteq> name @ ''_'' @ x) \<Longrightarrow>
   map_of flat' col = map_of flat col"
proof (induction xs arbitrary: flat i)
  case Nil
  then show ?case by simp
next
  case (Cons obj xs)
  from Cons.prems(1) obtain od where obj: "obj = JDict od"
    by (cases obj) simp_all
  with Cons.prems(1)
  have "band_items name (item_columns flat (name @ ''_'' @ str_nat i) od) (Suc i) xs = Inr flat'"
    by simp
  from Cons.IH [OF this Cons.prems(2)]
  have "map_of flat' col = map_of (item_columns flat (name @ ''_'' @ str_nat i) od) col" .
  also have "\<dots> = map_of flat col"
    using Cons.prems(2) [of "str_nat i @ ''_'' @ x" for x]
    by (intro map_of_item_columns_other) simp
  finally show ?case .
qed

lemma band_nones_Suc:
  "band_nones name flat (Suc n) = none_columns (band_nones name flat n) (name @ ''_'' @ str_nat n)"
  by (simp add: band_nones_def)

lemma map_of_band_nones:
  "map_of (band_nones name flat n) col =
   (if \<exists>i<n. \<exists>k\<in>set stat_keys. col = name @ ''_'' @ str_nat i @ ''_'' @ k
    then Some JNull else map_of flat col)"
proof (induction n)
  case 0
  show ?case by (simp add: band_nones_def)
next
  case (Suc n)
  show ?case
    unfolding band_nones_Suc map_of_none_columns Suc.IH
    by (auto simp: less_Suc_eq)
qed

lemma map_of_band_stats_other:
  assumes "band_stats d flat name n = Inr flat'" and "\<And>x. col \<noteq> name @ ''_'' @ x"
  shows "map_of flat' col = map_of flat col"
proof (cases "\<exists>obj rest. dict_get d name (JList []) = JList (obj # rest)")
  case True
  then obtain obj rest where "dict_get d name (JList []) = JList (obj # rest)" by blast
  with assms(1) have "band_items name flat 0 (obj # rest) = Inr flat'"
    by (simp add: band_stats_def)
  then show ?thesis using assms(2) by (rule map_of_band_items_other)
next
  case False
  with assms(1) have "flat' = band_nones name flat n"
    by (auto simp: band_stats_def split: json.splits list.splits)
  then show ?thesis
    using assms(2) [of "str_nat i @ ''_'' @ k" for i k]
    by (simp add: map_of_band_nones)
qed

lemma band_items_total:
  "list_all is_dict xs \<Longrightarrow> \<exists>flat'. band_items name flat i xs = Inr flat'"
proof (induction xs arbitrary: flat i)
  case Nil
  show ?case by simp
next
  case (Cons obj xs)
  then obtain od where "obj = JDict od" by (cases obj) simp_all
  with Cons show ?case by simp
qed

lemma band_items_fail:
  "\<not> list_all is_dict xs \<Longrightarrow> band_items name flat i xs = Inl AttributeError"
proof (induction xs arbitrary: flat i)
  case Nil
  then show ?case by simp
next
  case (Cons obj xs)
  then show ?case by (cases obj) simp_all
qed

lemma band_stats_total:
  "band_ok d name \<Longrightarrow> \<exists>flat'. band_stats d flat name n = Inr flat'"
  by (auto simp: band_ok_def band_stats_def simp del: band_items.simps
      split: json.splits list.splits intro!: band_items_total)

lemma band_stats_fail:
  "\<not> band_ok d name \<Longrightarrow> band_stats d flat name n = Inl AttributeError"
  by (auto simp: band_ok_def band_stats_def simp del: band_items.simps
      split: json.splits list.splits intro!: band_items_fail)

lemma band_stats_error:
  "band_stats d flat name n = Inl e \<Longrightarrow> e = AttributeError"
  using band_stats_total [of d name flat n] band_stats_fail [of d name flat n]
  by (cases "band_ok d name") auto

lemma flatten_total:
  assumes "bands_ok d"
  shows "\<exists>row. flatten_audio_features (JDict d) = Inr row"
proof -
  from assms have ok: "band_ok d ''mfcc_stats''" "band_ok d ''spectral_contrast_stats''"
    "band_ok d ''tonnetz_stats''"
    by (simp_all add: bands_ok_def band_names_def)
  show ?thesis
    unfolding flatten_audio_features_def Let_def json.case bind_err_def
    using band_stats_total [OF ok(1)] band_stats_total [OF ok(2)] band_stats_total [OF ok(3)]
    by (metis sum.case(2))
qed

lemma flatten_fail:
  assumes "\<not> bands_ok d"
  shows "flatten_audio_features (JDict d) = Inl AttributeError"
proof -
  from assms consider "\<not> band_ok d ''mfcc_stats''" | "\<not> band_ok d ''spectral_contrast_stats''"
    | "\<not> band_ok d ''tonnetz_stats''"
    by (auto simp: bands_ok_def band_names_def)
  then show ?thesis
    unfolding flatten_audio_features_def Let_def json.case bind_err_def
    by cases (auto simp: band_stats_fail split: sum.splits dest: band_stats_error)
qed

lemma flatten_stages:
  "flatten_audio_features (JDict d) =
   bind_err (band_stats d (single_stage d) ''mfcc_stats'' 20) (\<lambda>flat.
   bind_err (band_stats d flat ''spectral_contrast_stats'' 7) (\<lambda>flat.
   band_stats d flat ''tonnetz_stats'' 6))"
  by (simp add: flatten_audio_features_def single_stage_def Let_def)

lemma flatten_InrD:
  assumes "flatten_audio_features (JDict d) = Inr row"
  obtains f1 f2 where "band_stats d (single_stage d) ''mfcc_stats'' 20 = Inr f1"
    and "band_stats d f1 ''spectral_contrast_stats'' 7 = Inr f2"
    and "band_stats d f2 ''tonnetz_stats'' 6 = Inr row"
  using assms unfolding flatten_stages bind_err_def
  by (auto split: sum.splits)

text \<open>A column that no multi-band field writes keeps the value of the single stage.\<close>

lemma map_of_flatten_not_band:
  assumes "flatten_audio_features (JDict d) = Inr row"
    and "\<And>x. col \<noteq> ''mfcc_stats'' @ ''_'' @ x"
    and "\<And>x. col \<noteq> ''spectral_contrast_stats'' @ ''_'' @ x"
    and "\<And>x. col \<noteq> ''tonnetz_stats'' @ ''_'' @ x"
  shows "map_of row col = map_of (single_stage d) col"
proof -
  from assms(1) obtain f1 f2 where
    b: "band_stats d (single_stage d) ''mfcc_stats'' 20 = Inr f1"
       "band_stats d f1 ''spectral_contrast_stats'' 7 = Inr f2"
       "band_stats d f2 ''tonnetz_stats'' 6 = Inr row"
    by (rule flatten_InrD)
  have "map_of row col = map_of f2 col"
    using b(3) assms(4) by (rule map_of_band_stats_other)
  also have "\<dots> = map_of f1 col"
    using b(2) assms(3) by (rule map_of_band_stats_other)
  also have "\<dots> = map_of (single_stage d) col"
    using b(1) assms(2) by (rule map_of_band_stats_other)
  finally show ?thesis .
qed

lemma single_stats_nondict:
  "map_of d f = Some v \<Longrightarrow> \<not> is_dict v \<Longrightarrow> single_stats d flat f = none_columns flat f"
  by (cases v) (simp_all add: single_stats_def dict_get_def)

lemma map_of_single_stats_nondict:
  assumes "map_of d f = Some v" "\<not> is_dict v" "k \<in> set stat_keys"
  shows "map_of (single_stats d flat f) (f @ ''_'' @ k) = Some JNull"
  using assms(3) by (simp add: single_stats_nondict [OF assms(1,2)] map_of_none_columns)

lemma single_stage_nondict:
  assumes "f \<in> set single_names" "map_of d f = Some v" "\<not> is_dict v" "k \<in> set stat_keys"
  shows "map_of (single_stage d) (f @ ''_'' @ k) = Some JNull"
proof -
  note nd = map_of_single_stats_nondict [OF assms(2,3,4)]
  from assms(1) consider "f = ''chroma_stft_stats''" | "f = ''spectral_centroid_stats''"
    | "f = ''zero_crossing_rate_stats''" | "f = ''rms_stats''"
    by (auto simp: single_names_def)
  then show ?thesis
  proof cases
    case 1
    with nd show ?thesis
      by (simp add: single_stage_def single_names_def map_of_single_stats_other)
  next
    case 2
    with nd show ?thesis
      by (simp add: single_stage_def single_names_def map_of_single_stats_other)
  next
    case 3
    with nd show ?thesis
      by (simp add: single_stage_def single_names_def map_of_single_stats_other)
  next
    case 4
    with nd show ?thesis
      by (simp add: single_stage_def single_names_def map_of_single_stats_other)
  qed
qed

lemma single_name_not_band:
  assumes "f \<in> set single_names"
  shows "f @ ''_'' @ k \<noteq> ''mfcc_stats'' @ ''_'' @ x"
    and "f @ ''_'' @ k \<noteq> ''spectral_contrast_stats'' @ ''_'' @ x"
    and "f @ ''_'' @ k \<noteq> ''tonnetz_stats'' @ ''_'' @ x"
  using assms by (auto simp: single_names_def)

lemma flatten_nondict_null:
  assumes "flatten_audio_features (JDict d) = Inr row"
    and "f \<in> set single_names" "map_of d f = Some v" "\<not> is_dict v" "k \<in> set stat_keys"
  shows "map_of row (f @ ''_'' @ k) = Some JNull"
proof -
  have "map_of row (f @ ''_'' @ k) = map_of (single_stage d) (f @ ''_'' @ k)"
    using assms(1) by (rule map_of_flatten_not_band) (rule single_name_not_band [OF assms(2)])+
  then show ?thesis
    by (simp only: single_stage_nondict [OF assms(2-5)])
qed







section \<open>The loop of main\<close>

lemma row_features_loadable:
  assumes "loadable conv fs row"
  shows "\<exists>flat. row_features conv fs row = Inr flat"
proof (cases "find_json_path conv fs row")
  case (Inl e)
  with assms show ?thesis by (simp add: loadable_def)
next
  case (Inr path)
  show ?thesis
  proof (cases "\<exists>p d. path = Some p \<and> fs p = Some (File (Some (JDict d)))")
    case True
    then obtain p d where p: "path = Some p" "fs p = Some (File (Some (JDict d)))" by blast
    with assms Inr have "bands_ok d" by (simp add: loadable_def)
    from flatten_total [OF this] show ?thesis
      using Inr p by (simp add: row_features_def bind_err_def)
  next
    case False
    with assms Inr have "row_features conv fs row = flatten_audio_features (JDict [])"
      by (auto simp: row_features_def loadable_def bind_err_def
          split: option.splits fnode.splits json.splits)
    then show ?thesis by (simp add: flatten_empty)
  qed
qed

lemma row_features_missing:
  assumes "\<not> has_artifact conv fs row" "loadable conv fs row"
  shows "row_features conv fs row = Inr empty_row"
  using assms
  by (auto simp: row_features_def loadable_def has_artifact_def bind_err_def flatten_empty
      split: sum.splits option.splits fnode.splits)

lemma row_features_loaded:
  assumes "find_json_path conv fs row = Inr (Some p)" "fs p = Some (File (Some doc))"
  shows "row_features conv fs row = flatten_audio_features doc"
  using assms by (simp add: row_features_def bind_err_def)

lemma audio_features_list_length:
  "audio_features_list conv fs df = Inr features \<Longrightarrow> length features = length df"
  by (induction df arbitrary: features) (auto simp: bind_err_def split: sum.splits)

lemma audio_features_list_nth:
  "audio_features_list conv fs df = Inr features \<Longrightarrow> i < length df \<Longrightarrow>
   row_features conv fs (df ! i) = Inr (features ! i)"
proof (induction df arbitrary: features i)
  case Nil
  then show ?case by simp
next
  case (Cons row rows)
  from Cons.prems(1) obtain flat rest where
    parts: "row_features conv fs row = Inr flat" "audio_features_list conv fs rows = Inr rest"
      "features = flat # rest"
    by (auto simp: bind_err_def split: sum.splits)
  show ?case
  proof (cases i)
    case 0
    with parts show ?thesis by simp
  next
    case (Suc j)
    with Cons.prems(2) have "j < length rows" by simp
    from Cons.IH [OF parts(2) this] show ?thesis
      using Suc parts(3) by simp
  qed
qed

lemma audio_features_list_total:
  "list_all (loadable conv fs) df \<Longrightarrow> \<exists>features. audio_features_list conv fs df = Inr features"
proof (induction df)
  case Nil
  show ?case by simp
next
  case (Cons row rows)
  then obtain flat rest where "row_features conv fs row = Inr flat"
    "audio_features_list conv fs rows = Inr rest"
    using row_features_loadable [of conv fs row] by auto
  then show ?case by (simp add: bind_err_def)
qed

lemma main_InrD:
  assumes "main conv fs df = Inr r"
  obtains features where "audio_features_list conv fs df = Inr features"
    and "merged_df r = zip df features" and "printed r = [success_message]"
  using assms
  by (auto simp: main_def bind_err_def success_message_def split: sum.splits)

lemma main_total:
  "list_all (loadable conv fs) df \<Longrightarrow> \<exists>r. main conv fs df = Inr r"
  using audio_features_list_total [of conv fs df]
  by (auto simp: main_def bind_err_def)

section \<open>Sample inputs and the extractor\<close>

lemma wf_bundle0: "wf_bundle bundle0"
  by (simp add: wf_bundle_def bundle0_def key_labels_def)

lemma path_row0:
  "find_json_path sample_conv fs row0 =
   Inr (if fs ''audio/1956/Switzerland_Refrain_Lys Assia.json'' \<noteq> None
        then Some ''audio/1956/Switzerland_Refrain_Lys Assia.json'' else None)"
  by (simp add: find_json_path_def row0_def sample_conv_def bind_err_def
      sanitize_def replace_char_def path_join_def Let_def)

lemma detailed_stats_empty: "np_flatten a = [] \<Longrightarrow> detailed_stats a = Inl ValueError"
  by (simp add: detailed_stats_def np_min_def bind_err_def)

lemma detailed_stats_nonempty:
  "np_flatten a \<noteq> [] \<Longrightarrow> \<exists>s. detailed_stats a = Inr s"
  by (cases "np_flatten a")
     (simp_all add: detailed_stats_def np_min_def np_max_def bind_err_def Let_def)

lemma map_err_total:
  "(\<And>x. x \<in> set xs \<Longrightarrow> \<exists>y. f x = Inr y) \<Longrightarrow> \<exists>ys. map_err f xs = Inr ys"
proof (induction xs)
  case Nil
  show ?case by simp
next
  case (Cons x xs)
  then obtain y ys where "f x = Inr y" "map_err f xs = Inr ys"
    by (metis list.set_intros)
  then show ?case by (simp add: bind_err_def)
qed

lemma bands_total:
  "(\<And>band. band \<in> set bands \<Longrightarrow> band \<noteq> []) \<Longrightarrow>
   \<exists>ys. map_err (\<lambda>band. detailed_stats (Arr1 band)) bands = Inr ys"
  by (rule map_err_total) (simp add: detailed_stats_nonempty)

text \<open>What a returned bundle says about the danceability.\<close>

lemma extract_danceability:
  assumes "extract_audio_features lr = Inr b"
  shows "\<exists>beat_rms. at_beat_frames (lr_rms lr) (lr_beat_frames lr) = Inr beat_rms \<and>
     danceability b = np_clip (danceability_raw (lr_tempo lr) (np_mean beat_rms)) 0 1"
  using assms unfolding extract_audio_features_def bind_err_def Let_def
  by (auto split: sum.splits)

lemma at_beat_frames_length:
  "at_beat_frames rms frames = Inr xs \<Longrightarrow> length xs = length frames"
  by (auto simp: at_beat_frames_def split: list.splits if_splits)

lemma np_clip_range:
  "np_clip (danceability_raw t (np_mean xs)) 0 1 =
   (if xs = [] then NaN else Fin (min (max ((t / 200) * (sum_list xs / real (length xs)) * 10) 0) 1))"
  by (simp add: np_mean_def)

section \<open>The columns of a flat row\<close>

lemma length_flat_row_wf: "wf_bundle b \<Longrightarrow> length (flat_row b) = 263"
  by (simp add: length_flat_row wf_bundle_def bands_emitted_def)

lemma keys_flat_row_wf: "wf_bundle b \<Longrightarrow> map fst (flat_row b) = map column_name schema"
  by (simp add: keys_flat_row wf_bundle_def bands_emitted_def schema_columns_for)

text \<open>
  C1, amended: for every present, well-formed bundle, as the extractor writes it, the
  flattener produces exactly 263 columns with distinct names: 4 top-level scalars, 7
  statistics for each of the 4 single fields, and 7 for each of the 20, 7 and 6 bands
  (4 + 28 + 140 + 49 + 42).
\<close>

theorem wellformed_bundle_263_columns:
  assumes "wf_bundle b"
  shows "\<exists>row. flatten_audio_features (JDict (features_dict b)) = Inr row \<and>
     length row = 263 \<and> distinct (map fst row)"
  using length_flat_row_wf [OF assms] distinct_keys_flat_row [of b]
  by (simp add: flatten_features)

text \<open>
  C1, witness: the sample bundle is well-formed and its row has 263 distinct columns.
\<close>

theorem wellformed_bundle_263_columns_witness:
  "wf_bundle bundle0 \<and>
   (\<exists>row. flatten_audio_features (JDict (features_dict bundle0)) = Inr row \<and>
      length row = 263 \<and> distinct (map fst row))"
  using wellformed_bundle_263_columns [of bundle0]
  by (simp add: wf_bundle_def bundle0_def key_labels_def)

text \<open>
  C1 as stated, with 249 columns, fails: the row of the well-formed sample bundle has
  263 columns.
\<close>

theorem wellformed_bundle_not_249_columns:
  "wf_bundle bundle0 \<and> flat_width (JDict (features_dict bundle0)) = Inr 263 \<and>
   flat_width (JDict (features_dict bundle0)) \<noteq> Inr 249"
  using length_flat_row_wf [OF wf_bundle0]
  by (simp add: wf_bundle0 flat_width_def flatten_features)

lemma single_not_in_empty_row:
  assumes "f \<in> set single_names" "k \<in> set stat_keys"
  shows "map_of empty_row (f @ ''_'' @ k) = None"
proof -
  let ?cs = "map Top top_names @ band_columns ''mfcc_stats'' 20
     @ band_columns ''spectral_contrast_stats'' 7 @ band_columns ''tonnetz_stats'' 6"
  have "f @ ''_'' @ k \<notin> set (map fst empty_row)"
  proof
    assume "f @ ''_'' @ k \<in> set (map fst empty_row)"
    then obtain c where c: "c \<in> set ?cs" "column_name c = column_name (Single f k)"
      by (auto simp only: keys_empty_row set_map column_name.simps)
    from c(1) have "c \<in> set (columns_for 20 7 6)"
      by (auto simp: columns_for_def)
    then have "valid_column c" by (rule valid_columns_for)
    moreover have "valid_column (Single f k)" using assms by simp
    ultimately have "c = Single f k" using c(2) by (rule column_name_inj)
    with c(1) show False by (auto simp: set_band_columns)
  qed
  then show ?thesis by (simp add: map_of_eq_None_iff)
qed

text \<open>
  C2: the flattener on the empty document, which stands for an absent bundle, and on a
  well-formed bundle. The empty document takes the default \<^verbatim>\<open>{}\<close> for each single
  statistic and loops over no item, so its row has no column for them: 235 columns
  against 263, and no \<^verbatim>\<open>rms_stats_mean\<close>. The key lists differ.
\<close>

theorem absent_bundle_row_lacks_single_stats:
  "flatten_audio_features (JDict []) = Inr empty_row \<and> length empty_row = 235 \<and>
   map_of empty_row ''rms_stats_mean'' = None \<and>
   flatten_audio_features (JDict (features_dict bundle0)) = Inr (flat_row bundle0) \<and>
   length (flat_row bundle0) = 263 \<and>
   map fst empty_row \<noteq> map fst (flat_row bundle0)"
proof -
  have "map_of empty_row (''rms_stats'' @ ''_'' @ ''mean'') = None"
    by (rule single_not_in_empty_row) (simp_all add: single_names_def stat_keys_def)
  moreover have "length (map fst empty_row) \<noteq> length (map fst (flat_row bundle0))"
    by (simp add: length_empty_row length_flat_row_wf [OF wf_bundle0])
  then have "map fst empty_row \<noteq> map fst (flat_row bundle0)" by metis
  ultimately show ?thesis
    by (simp add: flatten_empty flatten_features length_empty_row
        length_flat_row_wf [OF wf_bundle0])
qed

lemma count_list_distinct:
  "distinct xs \<Longrightarrow> x \<in> set xs \<Longrightarrow> count_list xs x = 1"
  by (induction xs) (auto simp: count_list_0_iff)

text \<open>
  Over the fixed schema the naming is injective, and a well-formed bundle gets a column
  for every triple: no two of the 263 triples (field, index, statistic) have the same
  column name, and in the row of a well-formed bundle the columns are the names of the
  triples, in order, each triple giving exactly one column.
\<close>

lemma column_names_injective_total:
  assumes "wf_bundle b"
  shows "inj_on column_name (set schema) \<and> distinct schema \<and> length schema = 263 \<and>
     (\<exists>row. flatten_audio_features (JDict (features_dict b)) = Inr row \<and>
        map fst row = map column_name schema \<and>
        (\<forall>c\<in>set schema. count_list (map fst row) (column_name c) = 1))"
proof -
  have inj: "inj_on column_name (set schema)"
    by (simp only: schema_columns_for inj_on_column_name)
  have dist: "distinct schema"
    by (simp only: schema_columns_for distinct_columns_for)
  have len: "length schema = 263"
    by (simp add: schema_columns_for length_columns_for)
  have keys: "map fst (flat_row b) = map column_name schema"
    using assms by (rule keys_flat_row_wf)
  have "count_list (map fst (flat_row b)) (column_name c) = 1" if "c \<in> set schema" for c
    using distinct_keys_flat_row [of b] that
    by (intro count_list_distinct) (simp_all add: keys)
  with inj dist len keys show ?thesis
    by (simp add: flatten_features)
qed

lemma distinct_schema_names: "distinct schema \<and> distinct (map column_name schema)"
  by (simp only: schema_columns_for distinct_columns_for distinct_column_names)

text \<open>
  C3: the names of the schema's triples are distinct, but not every triple produces a
  column. On the empty document, which \<^verbatim>\<open>main\<close> flattens for a row with no file, the
  triple (rms\_stats, mean) of the schema has no column, while the triple
  (mfcc\_stats, 19, max), written by the loop over \<^verbatim>\<open>range(20)\<close>, has exactly one.
\<close>

theorem absent_row_misses_schema_triples:
  "distinct schema \<and> distinct (map column_name schema) \<and>
   Single ''rms_stats'' ''mean'' \<in> set schema \<and>
   Band ''mfcc_stats'' 19 ''max'' \<in> set schema \<and>
   flatten_audio_features (JDict []) = Inr empty_row \<and>
   count_list (map fst empty_row) (column_name (Single ''rms_stats'' ''mean'')) = 0 \<and>
   count_list (map fst empty_row) (column_name (Band ''mfcc_stats'' 19 ''max'')) = 1"
proof -
  have m: "Single ''rms_stats'' ''mean'' \<in> set schema"
    "Band ''mfcc_stats'' 19 ''max'' \<in> set schema"
    by (simp_all add: schema_columns_for columns_for_def set_band_columns set_single_columns
        stat_keys_def single_names_def)
  have "map_of empty_row (''rms_stats'' @ ''_'' @ ''mean'') = None"
    by (rule single_not_in_empty_row) (simp_all add: single_names_def stat_keys_def)
  then have "''rms_stats'' @ ''_'' @ ''mean'' \<notin> set (map fst empty_row)"
    by (simp add: map_of_eq_None_iff)
  then have zero: "count_list (map fst empty_row) (column_name (Single ''rms_stats'' ''mean'')) = 0"
    unfolding column_name.simps by (rule count_notin)
  have "Band ''mfcc_stats'' 19 ''max'' \<in> set (band_columns ''mfcc_stats'' 20)"
    by (simp add: set_band_columns stat_keys_def)
  then have "column_name (Band ''mfcc_stats'' 19 ''max'') \<in> set (map fst empty_row)"
    by (simp only: keys_empty_row set_map set_append) blast
  with distinct_keys_empty_row
  have one: "count_list (map fst empty_row) (column_name (Band ''mfcc_stats'' 19 ''max'')) = 1"
    by (rule count_list_distinct)
  from m zero one distinct_schema_names show ?thesis
    by (simp only: flatten_empty)
qed

section \<open>The run over the catalog\<close>

lemma loadable_none_row0: "loadable sample_conv fs_none row0"
  by (simp add: loadable_def path_row0 fs_none_def)

lemma no_artifact_none: "\<not> has_artifact sample_conv fs_none row"
  by (auto simp: has_artifact_def fs_none_def split: sum.splits option.splits)

lemma path_with_row0:
  "find_json_path sample_conv (fs_with doc) row0 = Inr (Some ''audio/1956/Switzerland_Refrain_Lys Assia.json'')"
  by (simp add: path_row0 fs_with_def)

lemma has_artifact_with: "has_artifact sample_conv (fs_with doc) row0"
  by (simp add: has_artifact_def path_with_row0) (simp add: fs_with_def)

lemma row_features_with: "row_features sample_conv (fs_with doc) row0 = flatten_audio_features doc"
  by (rule row_features_loaded [OF path_with_row0]) (simp add: fs_with_def)

lemma path_with_row1: "find_json_path sample_conv (fs_with doc) row1 = Inr None"
  by (simp add: find_json_path_def row1_def sample_conv_def bind_err_def
      sanitize_def replace_char_def path_join_def Let_def fs_with_def)

lemma no_artifact_with_row1: "\<not> has_artifact sample_conv (fs_with doc) row1"
  by (simp add: has_artifact_def path_with_row1)

lemma row_features_with_row1: "row_features sample_conv (fs_with doc) row1 = Inr empty_row"
  by (simp add: row_features_def path_with_row1 bind_err_def flatten_empty)

lemma bands_ok_features: "bands_ok (features_dict b)"
  by (simp add: bands_ok_def band_names_def band_ok_def dict_get_def features_dict_def
      list_all_iff)

lemma loadable_with_row0: "loadable sample_conv (fs_with (JDict (features_dict b))) row0"
  by (simp add: loadable_def path_with_row0 bands_ok_features)
     (simp add: fs_with_def bands_ok_features)

lemma loadable_with_row1: "loadable sample_conv (fs_with doc) row1"
  by (simp add: loadable_def path_with_row1)

text \<open>
  C4: the join preserves row count and order. Whenever \<^verbatim>\<open>main\<close> produces its table, the
  table has one row per catalog row, in the catalog's order, each beside the flat row of
  its own catalog row; and it does produce the table whenever every row is loadable,
  however many of them have no artifact.
\<close>

theorem main_preserves_rows:
  "(main conv fs df = Inr r \<longrightarrow>
      length (merged_df r) = length df \<and> map fst (merged_df r) = df \<and>
      (\<forall>i<length df. row_features conv fs (df ! i) = Inr (snd (merged_df r ! i)))) \<and>
   (list_all (loadable conv fs) df \<longrightarrow> (\<exists>r'. main conv fs df = Inr r'))"
proof (intro conjI impI)
  assume "main conv fs df = Inr r"
  then obtain features where f: "audio_features_list conv fs df = Inr features"
    "merged_df r = zip df features"
    by (rule main_InrD)
  from f(1) have len: "length features = length df"
    by (rule audio_features_list_length)
  with f(2) show "length (merged_df r) = length df" "map fst (merged_df r) = df"
    by simp_all
  show "\<forall>i<length df. row_features conv fs (df ! i) = Inr (snd (merged_df r ! i))"
    using audio_features_list_nth [OF f(1)] len f(2) by simp
next
  assume "list_all (loadable conv fs) df"
  then show "\<exists>r'. main conv fs df = Inr r'" by (rule main_total)
qed

text \<open>
  C4, witness: a catalog of two rows, the first with a bundle document and the second
  with no file, gives a table of two rows in the same order, the bundle's flat row and
  the row of the empty document.
\<close>

theorem main_preserves_rows_witness:
  "list_all (loadable sample_conv (fs_with (JDict (features_dict bundle0)))) [row0, row1] \<and>
   has_artifact sample_conv (fs_with (JDict (features_dict bundle0))) row0 \<and>
   \<not> has_artifact sample_conv (fs_with (JDict (features_dict bundle0))) row1 \<and>
   (\<exists>r. main sample_conv (fs_with (JDict (features_dict bundle0))) [row0, row1] = Inr r \<and>
      length (merged_df r) = 2 \<and> map fst (merged_df r) = [row0, row1] \<and>
      map snd (merged_df r) = [flat_row bundle0, empty_row])"
proof -
  let ?fs = "fs_with (JDict (features_dict bundle0))"
  have l: "list_all (loadable sample_conv ?fs) [row0, row1]"
    by (simp add: loadable_with_row0 loadable_with_row1)
  with main_preserves_rows [of sample_conv ?fs "[row0, row1]"]
  obtain r where r: "main sample_conv ?fs [row0, row1] = Inr r" by blast
  from main_preserves_rows [of sample_conv ?fs "[row0, row1]" r] r
  have p: "length (merged_df r) = 2" "map fst (merged_df r) = [row0, row1]"
    "\<forall>i<2. row_features sample_conv ?fs ([row0, row1] ! i) = Inr (snd (merged_df r ! i))"
    by simp_all
  from p(3) have "row_features sample_conv ?fs row0 = Inr (snd (merged_df r ! 0))"
    "row_features sample_conv ?fs row1 = Inr (snd (merged_df r ! 1))"
    by (auto simp: less_Suc_eq numeral_2_eq_2)
  then have "snd (merged_df r ! 0) = flat_row bundle0" "snd (merged_df r ! 1) = empty_row"
    by (simp_all add: row_features_with flatten_features row_features_with_row1)
  with p(1) have ms: "map snd (merged_df r) = [flat_row bundle0, empty_row]"
    by (cases "merged_df r"; cases "tl (merged_df r)") auto
  show ?thesis
    by (intro conjI exI [of _ r])
       (rule l r p(1) p(2) ms has_artifact_with no_artifact_with_row1)+
qed

text \<open>
  C5, amended: on a catalog in which the year of every row converts to an integer and
  every JSON file found holds an object whose multi-band arrays hold only objects (every
  row is loadable), \<^verbatim>\<open>main\<close> does not raise; each row with no artifact gets the row of the
  empty document, whose values are all null; and the run prints the fixed success message
  and nothing else.
\<close>

theorem missing_rows_degrade:
  assumes "list_all (loadable conv fs) df"
  shows "\<exists>r. main conv fs df = Inr r \<and> printed r = [success_message] \<and>
     length (merged_df r) = length df \<and>
     (\<forall>i<length df. \<not> has_artifact conv fs (df ! i) \<longrightarrow> merged_df r ! i = (df ! i, empty_row)) \<and>
     (\<forall>(k, v)\<in>set empty_row. v = JNull)"
proof -
  from main_total [OF assms] obtain r where r: "main conv fs df = Inr r" ..
  then obtain features where f: "audio_features_list conv fs df = Inr features"
    "merged_df r = zip df features" "printed r = [success_message]"
    by (rule main_InrD)
  from f(1) have len: "length features = length df"
    by (rule audio_features_list_length)
  have "merged_df r ! i = (df ! i, empty_row)"
    if i: "i < length df" and miss: "\<not> has_artifact conv fs (df ! i)" for i
  proof -
    from assms i have "loadable conv fs (df ! i)" by (simp add: list_all_length)
    with miss have "row_features conv fs (df ! i) = Inr empty_row"
      by (rule row_features_missing)
    with audio_features_list_nth [OF f(1) i] have "features ! i = empty_row" by simp
    with i len f(2) show ?thesis by simp
  qed
  moreover have "\<forall>(k, v)\<in>set empty_row. v = JNull"
    using values_empty_row by blast
  ultimately show ?thesis using r f(2,3) len by simp
qed

text \<open>
  C5, witness: in a catalog of two rows where only the first has a file, the second row
  is paired with the row of the empty document and the run prints the success message.
\<close>

theorem missing_rows_degrade_witness:
  "list_all (loadable sample_conv (fs_with (JDict (features_dict bundle0)))) [row0, row1] \<and>
   \<not> has_artifact sample_conv (fs_with (JDict (features_dict bundle0))) row1 \<and>
   (\<exists>r. main sample_conv (fs_with (JDict (features_dict bundle0))) [row0, row1] = Inr r \<and>
      printed r = [success_message] \<and> merged_df r ! 1 = (row1, empty_row))"
proof -
  let ?fs = "fs_with (JDict (features_dict bundle0))"
  have l: "list_all (loadable sample_conv ?fs) [row0, row1]"
    by (simp add: loadable_with_row0 loadable_with_row1)
  from missing_rows_degrade [OF l] no_artifact_with_row1 [of "JDict (features_dict bundle0)"] l
  show ?thesis
    by fastforce
qed

lemma no_artifact_corrupt_row1: "\<not> has_artifact sample_conv fs_corrupt row1"
  by (simp add: has_artifact_def find_json_path_def row1_def sample_conv_def bind_err_def
      sanitize_def replace_char_def path_join_def Let_def fs_corrupt_def)

lemma row_features_corrupt_row1: "row_features sample_conv fs_corrupt row1 = Inr empty_row"
  by (simp add: row_features_def find_json_path_def row1_def sample_conv_def bind_err_def
      sanitize_def replace_char_def path_join_def Let_def fs_corrupt_def flatten_empty)

lemma row_features_corrupt_row0: "row_features sample_conv fs_corrupt row0 = Inl JSONDecodeError"
  by (simp add: row_features_def path_row0 bind_err_def) (simp add: fs_corrupt_def)

text \<open>
  C5 as stated fails: there is no summary of degraded rows. A run with one missing row
  and a run with none print the same single message. And a catalog with a missing row
  does raise when the file of another row is not a JSON document.
\<close>

theorem no_degraded_summary:
  "map_sum id printed (main sample_conv fs_none [row0]) = Inr [success_message] \<and>
   map_sum id printed (main sample_conv (fs_with (JDict (features_dict bundle0))) [row0])
     = Inr [success_message] \<and>
   missing_count sample_conv fs_none [row0] = 1 \<and>
   missing_count sample_conv (fs_with (JDict (features_dict bundle0))) [row0] = 0 \<and>
   \<not> has_artifact sample_conv fs_corrupt row1 \<and>
   main sample_conv fs_corrupt [row1, row0] = Inl JSONDecodeError"
proof -
  have "row_features sample_conv fs_none row0 = Inr empty_row"
    using no_artifact_none loadable_none_row0 by (rule row_features_missing)
  then have 1: "map_sum id printed (main sample_conv fs_none [row0]) = Inr [success_message]"
    by (simp add: main_def bind_err_def success_message_def)
  have 2: "map_sum id printed (main sample_conv (fs_with (JDict (features_dict bundle0))) [row0])
     = Inr [success_message]"
    by (simp add: main_def bind_err_def success_message_def row_features_with flatten_features)
  have 3: "main sample_conv fs_corrupt [row1, row0] = Inl JSONDecodeError"
    by (simp add: main_def bind_err_def row_features_corrupt_row1 row_features_corrupt_row0)
  show ?thesis
    using 1 2 3
    by (simp add: missing_count_def no_artifact_none has_artifact_with no_artifact_corrupt_row1)
qed

text \<open>
  C6: \<^verbatim>\<open>detailed_stats\<close> on an array with no element fails, with the ValueError that
  \<^verbatim>\<open>np.min\<close> raises, and returns a summary on every other array: it never returns a
  summary, zero-filled or not, for empty input.
\<close>

theorem detailed_stats_empty_fails:
  "(np_flatten a = [] \<longrightarrow> detailed_stats a = Inl ValueError) \<and>
   (np_flatten a \<noteq> [] \<longrightarrow> (\<exists>s. detailed_stats a = Inr s))"
  by (simp add: detailed_stats_empty detailed_stats_nonempty)

text \<open>
  C6, witness: a 2 by 0 array fails, a one-element array does not.
\<close>

theorem detailed_stats_empty_fails_witness:
  "np_flatten (Arr2 [[], []]) = [] \<and> detailed_stats (Arr2 [[], []]) = Inl ValueError \<and>
   np_flatten (Arr1 [5]) \<noteq> [] \<and> (\<exists>s. detailed_stats (Arr1 [5]) = Inr s)"
  using detailed_stats_empty_fails [of "Arr2 [[], []]"] detailed_stats_empty_fails [of "Arr1 [5]"]
  by simp

section \<open>Malformed documents, the danceability and values that are not dictionaries\<close>





text \<open>
  The danceability of a returned bundle is the clipped product, a number between 0 and 1,
  exactly when there is a beat frame.
\<close>

lemma extract_danceability_range:
  assumes "extract_audio_features lr = Inr b"
  shows "if lr_beat_frames lr = [] then danceability b = NaN
         else \<exists>x. danceability b = Fin x \<and> 0 \<le> x \<and> x \<le> 1"
proof -
  from extract_danceability [OF assms] obtain beat_rms where
    br: "at_beat_frames (lr_rms lr) (lr_beat_frames lr) = Inr beat_rms"
    and d: "danceability b = np_clip (danceability_raw (lr_tempo lr) (np_mean beat_rms)) 0 1"
    by blast
  from br have "length beat_rms = length (lr_beat_frames lr)"
    by (rule at_beat_frames_length)
  then have "beat_rms = [] \<longleftrightarrow> lr_beat_frames lr = []" by auto
  with d show ?thesis by (auto simp: np_clip_range)
qed

lemma extract_beatless: "\<exists>b. extract_audio_features beatless = Inr b"
proof -
  have k: "np_argmax (map np_mean (lr_chroma_cens beatless)) = Inr 0"
    by (simp add: beatless_def np_argmax_def np_mean_def numeral_eq_Suc)
  have l: "list_index key_labels 0 = Inr ''C''"
    by (simp add: list_index_def key_labels_def)
  have a: "at_beat_frames (lr_rms beatless) (lr_beat_frames beatless) = Inr []"
    by (simp add: beatless_def at_beat_frames_def)
  obtain s1 where s1: "detailed_stats (Arr2 (lr_chroma beatless)) = Inr s1"
    using detailed_stats_nonempty [of "Arr2 (lr_chroma beatless)"]
    by (auto simp: beatless_def)
  obtain s2 where s2: "detailed_stats (Arr2 (lr_spectral_centroid beatless)) = Inr s2"
    using detailed_stats_nonempty [of "Arr2 (lr_spectral_centroid beatless)"]
    by (auto simp: beatless_def)
  obtain s3 where s3: "detailed_stats (Arr2 (lr_zero_crossing_rate beatless)) = Inr s3"
    using detailed_stats_nonempty [of "Arr2 (lr_zero_crossing_rate beatless)"]
    by (auto simp: beatless_def)
  obtain s4 where s4: "detailed_stats (Arr2 (lr_rms beatless)) = Inr s4"
    using detailed_stats_nonempty [of "Arr2 (lr_rms beatless)"]
    by (auto simp: beatless_def)
  obtain m where m: "map_err (\<lambda>band. detailed_stats (Arr1 band)) (lr_mfcc beatless) = Inr m"
    using bands_total [of "lr_mfcc beatless"] by (auto simp: beatless_def)
  obtain c where c: "map_err (\<lambda>band. detailed_stats (Arr1 band)) (lr_spectral_contrast beatless) = Inr c"
    using bands_total [of "lr_spectral_contrast beatless"] by (auto simp: beatless_def)
  obtain t where t: "map_err (\<lambda>band. detailed_stats (Arr1 band)) (lr_tonnetz beatless) = Inr t"
    using bands_total [of "lr_tonnetz beatless"] by (auto simp: beatless_def)
  show ?thesis
    unfolding extract_audio_features_def
    by (simp add: k l a s1 s2 s3 s4 m c t bind_err_def Let_def)
qed

text \<open>
  C9: on a recording with no detected beat the extractor returns a bundle, and its
  danceability is NaN, not a number of the interval from 0 to 1: the mean of the RMS
  energy over no beat frame is NaN and \<^verbatim>\<open>np.clip\<close> keeps it.
\<close>

theorem beatless_danceability_nan:
  "\<exists>b. extract_audio_features beatless = Inr b \<and> danceability b = NaN \<and>
     lr_beat_frames beatless = []"
proof -
  from extract_beatless obtain b where b: "extract_audio_features beatless = Inr b" ..
  have e: "lr_beat_frames beatless = []" by (simp add: beatless_def)
  with extract_danceability_range [OF b] have "danceability b = NaN" by simp
  with b e show ?thesis by blast
qed

text \<open>
  C10, amended: for every dictionary whose multi-band arrays hold only dictionaries and
  in which one of the four single statistics is present with a value that is not a
  dictionary, the flattener returns a row, and the seven columns of that field are in
  it, all null.
\<close>

theorem nondict_single_stats_null:
  assumes "f \<in> set single_names" "map_of d f = Some v" "\<not> is_dict v" "bands_ok d"
  shows "\<exists>row. flatten_audio_features (JDict d) = Inr row \<and>
     (\<forall>k\<in>set stat_keys. map_of row (f @ ''_'' @ k) = Some JNull)"
proof -
  from flatten_total [OF assms(4)] obtain row where
    row: "flatten_audio_features (JDict d) = Inr row" ..
  with flatten_nondict_null [OF row assms(1-3)] show ?thesis by blast
qed

text \<open>
  C10, witness: \<^verbatim>\<open>{"rms_stats": 5}\<close>.
\<close>

theorem nondict_single_stats_null_witness:
  "''rms_stats'' \<in> set single_names \<and>
   map_of [(''rms_stats'', JNum (Fin 5))] ''rms_stats'' = Some (JNum (Fin 5)) \<and>
   \<not> is_dict (JNum (Fin 5)) \<and> bands_ok [(''rms_stats'', JNum (Fin 5))] \<and>
   (\<exists>row. flatten_audio_features (JDict [(''rms_stats'', JNum (Fin 5))]) = Inr row \<and>
      map_of row ''rms_stats_mean'' = Some JNull \<and> map_of row ''rms_stats_max'' = Some JNull)"
proof -
  let ?d = "[(''rms_stats'', JNum (Fin 5))]"
  have h: "''rms_stats'' \<in> set single_names" "map_of ?d ''rms_stats'' = Some (JNum (Fin 5))"
    "\<not> is_dict (JNum (Fin 5))" "bands_ok ?d"
    by (simp_all add: single_names_def bands_ok_def band_names_def band_ok_def dict_get_def)
  from nondict_single_stats_null [OF h] obtain row where
    r: "flatten_audio_features (JDict ?d) = Inr row"
    "\<forall>k\<in>set stat_keys. map_of row (''rms_stats'' @ ''_'' @ k) = Some JNull"
    by blast
  from r(2) have "map_of row ''rms_stats_mean'' = Some JNull"
    "map_of row ''rms_stats_max'' = Some JNull"
    by (simp_all add: stat_keys_def)
  with h r(1) show ?thesis by blast
qed

text \<open>
  C10 as stated fails: with \<^verbatim>\<open>rms_stats\<close> present and not a dictionary, the flattener
  still raises when an entry of \<^verbatim>\<open>mfcc_stats\<close> is not a dictionary.
\<close>

theorem nondict_with_bad_band_raises:
  "map_of [(''rms_stats'', JNum (Fin 5)), (''mfcc_stats'', JList [JNum (Fin 5)])] ''rms_stats''
     = Some (JNum (Fin 5)) \<and>
   \<not> is_dict (JNum (Fin 5)) \<and>
   flatten_audio_features
     (JDict [(''rms_stats'', JNum (Fin 5)), (''mfcc_stats'', JList [JNum (Fin 5)])])
     = Inl AttributeError"
proof -
  have "\<not> bands_ok [(''rms_stats'', JNum (Fin 5)), (''mfcc_stats'', JList [JNum (Fin 5)])]"
    by (simp add: bands_ok_def band_names_def band_ok_def dict_get_def)
  from flatten_fail [OF this] show ?thesis by simp
qed

section \<open>The mean in double precision\<close>

text \<open>The binade of a positive number is its exponent.\<close>

lemma binade_bounds:
  assumes "0 < x"
  shows "2 powi binade x \<le> x \<and> x < 2 powi (binade x + 1)"
proof (cases "1 \<le> x")
  case True
  let ?m = "\<lfloor>x\<rfloor>"
  from True have m: "0 < ?m" by linarith
  from bitlen_bounds [OF m] have lo: "2 ^ nat (bitlen ?m - 1) \<le> ?m"
    and hi: "?m < 2 ^ nat (bitlen ?m)" by simp_all
  from m have k: "1 \<le> bitlen ?m" by (simp add: bitlen_alt_def)
  have "(2::real) powi (bitlen ?m - 1) = 2 ^ nat (bitlen ?m - 1)"
    using k by (simp add: power_int_def)
  also have "\<dots> = real_of_int (2 ^ nat (bitlen ?m - 1))" by simp
  also have "\<dots> \<le> real_of_int ?m" using lo by (simp only: of_int_le_iff)
  also have "\<dots> \<le> x" by simp
  finally have 1: "2 powi (bitlen ?m - 1) \<le> x" .
  from hi have "?m + 1 \<le> 2 ^ nat (bitlen ?m)" by simp
  then have "real_of_int (?m + 1) \<le> real_of_int (2 ^ nat (bitlen ?m))"
    by (simp only: of_int_le_iff)
  then have B: "real_of_int ?m + 1 \<le> 2 ^ nat (bitlen ?m)" by simp
  have "x < real_of_int ?m + 1" by linarith
  with B have "x < 2 ^ nat (bitlen ?m)" by linarith
  also have "\<dots> = 2 powi (bitlen ?m - 1 + 1)"
    using k by (simp add: power_int_def)
  finally have 2: "x < 2 powi (bitlen ?m - 1 + 1)" .
  from 1 2 True show ?thesis by (simp add: binade_def)
next
  case False
  let ?c = "\<lceil>1 / x\<rceil>"
  let ?k = "bitlen (?c - 1)"
  from False assms have "1 < 1 / x" by simp
  then have c: "0 < ?c - 1" by linarith
  from bitlen_bounds [OF c] have lo: "2 ^ nat (?k - 1) \<le> ?c - 1"
    and hi: "?c - 1 < 2 ^ nat ?k" by simp_all
  from c have k: "1 \<le> ?k" by (simp add: bitlen_alt_def)
  from hi have "?c \<le> 2 ^ nat ?k" by simp
  then have "real_of_int ?c \<le> real_of_int (2 ^ nat ?k)" by (simp only: of_int_le_iff)
  then have B: "real_of_int ?c \<le> 2 ^ nat ?k" by simp
  have "1 / x \<le> real_of_int ?c" by linarith
  with B have "1 / x \<le> 2 ^ nat ?k" by linarith
  then have "1 \<le> 2 ^ nat ?k * x" using assms by (simp add: field_simps)
  then have "1 / 2 ^ nat ?k \<le> x" by (simp add: field_simps)
  moreover have "(2::real) powi (- ?k) = 1 / 2 ^ nat ?k"
    using k by (simp add: power_int_def field_simps)
  ultimately have 1: "2 powi (- ?k) \<le> x" by simp
  from lo have "real_of_int (2 ^ nat (?k - 1)) \<le> real_of_int (?c - 1)"
    by (simp only: of_int_le_iff)
  then have B': "2 ^ nat (?k - 1) \<le> real_of_int ?c - 1" by simp
  have "real_of_int ?c - 1 < 1 / x" by linarith
  with B' have "2 ^ nat (?k - 1) < 1 / x" by linarith
  then have "2 ^ nat (?k - 1) * x < 1" using assms by (simp add: field_simps)
  then have "x < 1 / 2 ^ nat (?k - 1)" by (simp add: field_simps)
  moreover have "(2::real) powi (- ?k + 1) = 1 / 2 ^ nat (?k - 1)"
  proof -
    have "- ?k + 1 = - int (nat (?k - 1))" using k by simp
    then show ?thesis by (simp only: power_int_minus power_int_of_nat) (simp add: field_simps)
  qed
  ultimately have 2: "x < 2 powi (- ?k + 1)" by simp
  from 1 2 False show ?thesis by (simp add: binade_def)
qed

lemma tenth_value: "tenth = 7205759403792794 / 2 ^ 56"
  unfolding tenth_def by code_simp

lemma mean_three_tenths:
  "np_mean_double
     [7205759403792794 / 2 ^ 56, 7205759403792794 / 2 ^ 56, 7205759403792794 / 2 ^ 56]
   = Some (Fin (7205759403792795 / 2 ^ 56))"
  by code_simp

text \<open>
  C7: \<^verbatim>\<open>detailed_stats\<close> stores \<^verbatim>\<open>float(np.mean(a))\<close> and \<^verbatim>\<open>float(np.max(a))\<close>. On
  the array of doubles \<^verbatim>\<open>[0.1, 0.1, 0.1]\<close> the sum is rounded up to 0.30000000000000004
  and its third to 0.10000000000000002, one unit in the last place above the maximum 0.1:
  the mean is not between the minimum and the maximum.
\<close>

theorem mean_of_three_tenths_exceeds_max:
  "np_mean_double [tenth, tenth, tenth] = Some (Fin (7205759403792795 / 2 ^ 56)) \<and>
   np_max [tenth, tenth, tenth] = Inr (Fin (7205759403792794 / 2 ^ 56)) \<and>
   np_min [tenth, tenth, tenth] = Inr (Fin (7205759403792794 / 2 ^ 56)) \<and>
   (7205759403792794 / 2 ^ 56 :: real) < 7205759403792795 / 2 ^ 56"
proof -
  have "np_mean_double [tenth, tenth, tenth] = Some (Fin (7205759403792795 / 2 ^ 56))"
    by (simp only: tenth_value mean_three_tenths)
  moreover have "np_max [tenth, tenth, tenth] = Inr (Fin (7205759403792794 / 2 ^ 56))"
    "np_min [tenth, tenth, tenth] = Inr (Fin (7205759403792794 / 2 ^ 56))"
    by (simp_all add: tenth_value np_max_def np_min_def)
  moreover have "(7205759403792794 / 2 ^ 56 :: real) < 7205759403792795 / 2 ^ 56"
    by simp
  ultimately show ?thesis by (intro conjI)
qed

end
